theory Spec2Isabelle
  imports Main
begin

section \<open>The vault: entity store, playlist ordering and request handlers\<close>

text \<open>
  A shallow embedding of the in-memory store \<open>MemStorage\<close> (server/storage.ts), of the
  table declarations it stores (shared/schema.ts) and of the request handlers of
  server/routes.ts that the properties below talk about.

  Conventions of the embedding.
  \<^item> Ids, user ids and positions are JavaScript numbers that only ever hold integers
    (they come from the counters, from the constant session user or through a schema that
    rejects \<open>NaN\<close>); they are \<open>int\<close>. The loss of precision of doubles above \<open>2^53\<close> is
    not modelled.
  \<^item> A number that comes out of \<open>parseInt\<close> unchecked may be \<open>NaN\<close>; it is a \<open>jsnum\<close>.
  \<^item> A nullable column (\<open>string | null\<close>) is an \<open>option\<close>, \<open>None\<close> standing for
    \<open>null\<close> and for a missing key alike.
  \<^item> A \<open>Partial<Insert...>\<close> argument is a record of options: \<open>None\<close> is a key that is
    absent, \<open>Some v\<close> a key that is present with value \<open>v\<close>.
  \<^item> A JavaScript \<open>Map<number, V>\<close> is the list of its entries in insertion order, which
    is the order \<open>values()\<close> iterates in.
  \<^item> Every method of the store takes the store and returns its result together with the
    store afterwards; \<open>throw\<close> is the \<open>Inl\<close> of a sum.
  \<^item> \<open>new Date()\<close> in \<open>createTrack\<close> is a parameter \<open>now\<close>.
\<close>

subsection \<open>JavaScript numbers and maps\<close>

datatype jsnum = NaN | Num int

text \<open>Strict equality \<open>===\<close> on numbers: \<open>NaN\<close> is equal to nothing, itself included.\<close>

fun strict_eq :: "jsnum \<Rightarrow> jsnum \<Rightarrow> bool" where
  "strict_eq (Num a) (Num b) = (a = b)"
| "strict_eq _ _ = False"

text \<open>Truthiness of a number, as in \<open>if (categoryId)\<close>: \<open>0\<close> and \<open>NaN\<close> are falsy.\<close>

fun truthy :: "jsnum \<Rightarrow> bool" where
  "truthy NaN = False"
| "truthy (Num a) = (a \<noteq> 0)"

type_synonym 'v jsmap = "(int \<times> 'v) list"

definition map_keys :: "'v jsmap \<Rightarrow> int list" where
  "map_keys m = map fst m"

definition map_values :: "'v jsmap \<Rightarrow> 'v list" where
  "map_values m = map snd m"

definition map_get :: "'v jsmap \<Rightarrow> int \<Rightarrow> 'v option" where
  "map_get m k = map_of m k"

text \<open>\<open>Map.prototype.set\<close>: an existing key keeps its place, a new key goes last.\<close>

primrec map_set :: "'v jsmap \<Rightarrow> int \<Rightarrow> 'v \<Rightarrow> 'v jsmap" where
  "map_set [] k v = [(k, v)]"
| "map_set (p # ps) k v = (if fst p = k then (k, v) # ps else p # map_set ps k v)"

text \<open>\<open>Map.prototype.delete\<close>: says whether the key was there.\<close>

definition map_delete :: "'v jsmap \<Rightarrow> int \<Rightarrow> bool \<times> 'v jsmap" where
  "map_delete m k = (k \<in> set (map_keys m), filter (\<lambda>p. fst p \<noteq> k) m)"

text \<open>\<open>Array.prototype.find\<close>: the first element that satisfies the predicate.\<close>

definition array_find :: "('a \<Rightarrow> bool) \<Rightarrow> 'a list \<Rightarrow> 'a option" where
  "array_find P xs = List.find P xs"

text \<open>The object spread \<open>{ ...a, ...b }\<close> at one key of a partial \<open>b\<close>.\<close>

definition spread :: "'a \<Rightarrow> 'a option \<Rightarrow> 'a" where
  "spread old upd = (case upd of None \<Rightarrow> old | Some v \<Rightarrow> v)"

subsection \<open>The tables of shared/schema.ts\<close>

record User =
  user_id :: int
  user_username :: string
  user_password :: string
  user_email :: "string option"
  user_phone :: "string option"
  user_fullName :: "string option"
  user_avatarColor :: "string option"

record InsertUser =
  iu_username :: string
  iu_password :: string
  iu_email :: "string option"
  iu_phone :: "string option"
  iu_fullName :: "string option"
  iu_avatarColor :: "string option"

record PartialInsertUser =
  pu_username :: "string option"
  pu_password :: "string option"
  pu_email :: "string option option"
  pu_phone :: "string option option"
  pu_fullName :: "string option option"
  pu_avatarColor :: "string option option"

record Category =
  category_id :: int
  category_name :: string
  category_icon :: string
  category_color :: string
  category_userId :: int

record InsertCategory =
  ic_name :: string
  ic_icon :: string
  ic_color :: string
  ic_userId :: int

record PartialInsertCategory =
  pc_name :: "string option"
  pc_icon :: "string option"
  pc_color :: "string option"
  pc_userId :: "int option"

record Playlist =
  playlist_id :: int
  playlist_name :: string
  playlist_userId :: int
  playlist_color :: string
  playlist_icon :: string

record InsertPlaylist =
  ip_name :: string
  ip_userId :: int
  ip_color :: string
  ip_icon :: string

record PartialInsertPlaylist =
  pp_name :: "string option"
  pp_userId :: "int option"
  pp_color :: "string option"
  pp_icon :: "string option"

record Track =
  track_id :: int
  track_name :: string
  track_userId :: int
  track_categoryId :: "jsnum option"
  track_duration :: jsnum
  track_filePath :: string
  track_createdAt :: "int option"

record InsertTrack =
  it_name :: string
  it_userId :: int
  it_categoryId :: "jsnum option"
  it_duration :: jsnum
  it_filePath :: string

record PartialInsertTrack =
  ptr_name :: "string option"
  ptr_userId :: "int option"
  ptr_categoryId :: "jsnum option option"
  ptr_duration :: "jsnum option"
  ptr_filePath :: "string option"

record PlaylistTrack =
  pt_id :: int
  pt_playlistId :: int
  pt_trackId :: int
  pt_position :: int

record InsertPlaylistTrack =
  ipt_playlistId :: int
  ipt_trackId :: int
  ipt_position :: int

text \<open>An element of the result of \<open>getPlaylistTracks\<close>: \<open>{ track, position }\<close>.\<close>

record TrackAt =
  ta_track :: Track
  ta_position :: int

subsection \<open>MemStorage\<close>

record MemStorage =
  users :: "User jsmap"
  categories :: "Category jsmap"
  playlists :: "Playlist jsmap"
  tracks :: "Track jsmap"
  playlistTracks :: "PlaylistTrack jsmap"
  userId :: int
  categoryId :: int
  playlistId :: int
  trackId :: int
  playlistTrackId :: int

text \<open>The two \<open>throw new Error(...)\<close> of the store, by their message.\<close>

datatype store_error = PlaylistNotFound int | TrackNotFound int

text \<open>The constructor, before \<open>initializeDefaultData\<close>.\<close>

definition MemStorage_new :: MemStorage where
  "MemStorage_new =
     \<lparr>users = [], categories = [], playlists = [], tracks = [], playlistTracks = [],
      userId = 1, categoryId = 1, playlistId = 1, trackId = 1, playlistTrackId = 1\<rparr>"

paragraph \<open>Users\<close>

definition getUser :: "MemStorage \<Rightarrow> int \<Rightarrow> User option" where
  "getUser s i = map_get (users s) i"

definition getUserByUsername :: "MemStorage \<Rightarrow> string \<Rightarrow> User option" where
  "getUserByUsername s name =
     array_find (\<lambda>user. user_username user = name) (map_values (users s))"

definition createUser :: "MemStorage \<Rightarrow> InsertUser \<Rightarrow> User \<times> MemStorage" where
  "createUser s insertUser =
     (let i = userId s;
          user = \<lparr>user_id = i, user_username = iu_username insertUser,
                  user_password = iu_password insertUser, user_email = iu_email insertUser,
                  user_phone = iu_phone insertUser, user_fullName = iu_fullName insertUser,
                  user_avatarColor = iu_avatarColor insertUser\<rparr>
      in (user, s\<lparr>users := map_set (users s) i user, userId := i + 1\<rparr>))"

definition updateUser ::
    "MemStorage \<Rightarrow> int \<Rightarrow> PartialInsertUser \<Rightarrow> User option \<times> MemStorage" where
  "updateUser s i updates =
     (case map_get (users s) i of
        None \<Rightarrow> (None, s)
      | Some user \<Rightarrow>
          (let updatedUser = user
                 \<lparr>user_username := spread (user_username user) (pu_username updates),
                  user_password := spread (user_password user) (pu_password updates),
                  user_email := spread (user_email user) (pu_email updates),
                  user_phone := spread (user_phone user) (pu_phone updates),
                  user_fullName := spread (user_fullName user) (pu_fullName updates),
                  user_avatarColor := spread (user_avatarColor user) (pu_avatarColor updates)\<rparr>
           in (Some updatedUser, s\<lparr>users := map_set (users s) i updatedUser\<rparr>)))"

paragraph \<open>Categories\<close>

definition getCategories :: "MemStorage \<Rightarrow> int \<Rightarrow> Category list" where
  "getCategories s uid =
     filter (\<lambda>category. category_userId category = uid) (map_values (categories s))"

definition getCategoryById :: "MemStorage \<Rightarrow> int \<Rightarrow> Category option" where
  "getCategoryById s i = map_get (categories s) i"

definition createCategory :: "MemStorage \<Rightarrow> InsertCategory \<Rightarrow> Category \<times> MemStorage" where
  "createCategory s insertCategory =
     (let i = categoryId s;
          category = \<lparr>category_id = i, category_name = ic_name insertCategory,
                      category_icon = ic_icon insertCategory,
                      category_color = ic_color insertCategory,
                      category_userId = ic_userId insertCategory\<rparr>
      in (category, s\<lparr>categories := map_set (categories s) i category, categoryId := i + 1\<rparr>))"

definition updateCategory ::
    "MemStorage \<Rightarrow> int \<Rightarrow> PartialInsertCategory \<Rightarrow> Category option \<times> MemStorage" where
  "updateCategory s i updates =
     (case map_get (categories s) i of
        None \<Rightarrow> (None, s)
      | Some category \<Rightarrow>
          (let updatedCategory = category
                 \<lparr>category_name := spread (category_name category) (pc_name updates),
                  category_icon := spread (category_icon category) (pc_icon updates),
                  category_color := spread (category_color category) (pc_color updates),
                  category_userId := spread (category_userId category) (pc_userId updates)\<rparr>
           in (Some updatedCategory,
               s\<lparr>categories := map_set (categories s) i updatedCategory\<rparr>)))"

definition deleteCategory :: "MemStorage \<Rightarrow> int \<Rightarrow> bool \<times> MemStorage" where
  "deleteCategory s i =
     (let (existed, m) = map_delete (categories s) i in (existed, s\<lparr>categories := m\<rparr>))"

paragraph \<open>Playlists\<close>

definition getPlaylists :: "MemStorage \<Rightarrow> int \<Rightarrow> Playlist list" where
  "getPlaylists s uid =
     filter (\<lambda>playlist. playlist_userId playlist = uid) (map_values (playlists s))"

definition getPlaylistById :: "MemStorage \<Rightarrow> int \<Rightarrow> Playlist option" where
  "getPlaylistById s i = map_get (playlists s) i"

definition createPlaylist :: "MemStorage \<Rightarrow> InsertPlaylist \<Rightarrow> Playlist \<times> MemStorage" where
  "createPlaylist s insertPlaylist =
     (let i = playlistId s;
          playlist = \<lparr>playlist_id = i, playlist_name = ip_name insertPlaylist,
                      playlist_userId = ip_userId insertPlaylist,
                      playlist_color = ip_color insertPlaylist,
                      playlist_icon = ip_icon insertPlaylist\<rparr>
      in (playlist, s\<lparr>playlists := map_set (playlists s) i playlist, playlistId := i + 1\<rparr>))"

definition updatePlaylist ::
    "MemStorage \<Rightarrow> int \<Rightarrow> PartialInsertPlaylist \<Rightarrow> Playlist option \<times> MemStorage" where
  "updatePlaylist s i updates =
     (case map_get (playlists s) i of
        None \<Rightarrow> (None, s)
      | Some playlist \<Rightarrow>
          (let updatedPlaylist = playlist
                 \<lparr>playlist_name := spread (playlist_name playlist) (pp_name updates),
                  playlist_userId := spread (playlist_userId playlist) (pp_userId updates),
                  playlist_color := spread (playlist_color playlist) (pp_color updates),
                  playlist_icon := spread (playlist_icon playlist) (pp_icon updates)\<rparr>
           in (Some updatedPlaylist,
               s\<lparr>playlists := map_set (playlists s) i updatedPlaylist\<rparr>)))"

text \<open>
  The cascade: the links of the playlist are collected from a snapshot of the values
  (\<open>Array.from(...).filter(...)\<close>), then each is deleted by its own id (\<open>forEach\<close>).
\<close>

definition delete_links :: "PlaylistTrack jsmap \<Rightarrow> PlaylistTrack list \<Rightarrow> PlaylistTrack jsmap" where
  "delete_links m doomed = foldl (\<lambda>acc pt. snd (map_delete acc (pt_id pt))) m doomed"

definition deletePlaylist :: "MemStorage \<Rightarrow> int \<Rightarrow> bool \<times> MemStorage" where
  "deletePlaylist s i =
     (let doomed = filter (\<lambda>pt. pt_playlistId pt = i) (map_values (playlistTracks s));
          links = delete_links (playlistTracks s) doomed;
          (existed, m) = map_delete (playlists s) i
      in (existed, s\<lparr>playlistTracks := links, playlists := m\<rparr>))"

paragraph \<open>Tracks\<close>

definition getTracks :: "MemStorage \<Rightarrow> int \<Rightarrow> Track list" where
  "getTracks s uid = filter (\<lambda>track. track_userId track = uid) (map_values (tracks s))"

definition getTrackById :: "MemStorage \<Rightarrow> int \<Rightarrow> Track option" where
  "getTrackById s i = map_get (tracks s) i"

text \<open>\<open>track.categoryId === categoryId\<close>: a \<open>null\<close> category is equal to no number.\<close>

definition getTracksByCategory :: "MemStorage \<Rightarrow> jsnum \<Rightarrow> Track list" where
  "getTracksByCategory s cid =
     filter (\<lambda>track. case track_categoryId track of None \<Rightarrow> False | Some c \<Rightarrow> strict_eq c cid)
       (map_values (tracks s))"

definition createTrack :: "MemStorage \<Rightarrow> int \<Rightarrow> InsertTrack \<Rightarrow> Track \<times> MemStorage" where
  "createTrack s now insertTrack =
     (let i = trackId s;
          createdAt = now;
          track = \<lparr>track_id = i, track_name = it_name insertTrack,
                   track_userId = it_userId insertTrack,
                   track_categoryId = it_categoryId insertTrack,
                   track_duration = it_duration insertTrack,
                   track_filePath = it_filePath insertTrack,
                   track_createdAt = Some createdAt\<rparr>
      in (track, s\<lparr>tracks := map_set (tracks s) i track, trackId := i + 1\<rparr>))"

definition updateTrack ::
    "MemStorage \<Rightarrow> int \<Rightarrow> PartialInsertTrack \<Rightarrow> Track option \<times> MemStorage" where
  "updateTrack s i updates =
     (case map_get (tracks s) i of
        None \<Rightarrow> (None, s)
      | Some track \<Rightarrow>
          (let updatedTrack = track
                 \<lparr>track_name := spread (track_name track) (ptr_name updates),
                  track_userId := spread (track_userId track) (ptr_userId updates),
                  track_categoryId := spread (track_categoryId track) (ptr_categoryId updates),
                  track_duration := spread (track_duration track) (ptr_duration updates),
                  track_filePath := spread (track_filePath track) (ptr_filePath updates)\<rparr>
           in (Some updatedTrack, s\<lparr>tracks := map_set (tracks s) i updatedTrack\<rparr>)))"

definition deleteTrack :: "MemStorage \<Rightarrow> int \<Rightarrow> bool \<times> MemStorage" where
  "deleteTrack s i =
     (let doomed = filter (\<lambda>pt. pt_trackId pt = i) (map_values (playlistTracks s));
          links = delete_links (playlistTracks s) doomed;
          (existed, m) = map_delete (tracks s) i
      in (existed, s\<lparr>playlistTracks := links, tracks := m\<rparr>))"

paragraph \<open>Playlist tracks\<close>

text \<open>
  The \<open>map\<close> of \<open>getPlaylistTracks\<close> throws at the first link whose track is missing.
\<close>

fun lookup_tracks :: "Track jsmap \<Rightarrow> PlaylistTrack list \<Rightarrow> store_error + TrackAt list" where
  "lookup_tracks tm [] = Inr []"
| "lookup_tracks tm (pt # pts) =
     (case map_get tm (pt_trackId pt) of
        None \<Rightarrow> Inl (TrackNotFound (pt_trackId pt))
      | Some track \<Rightarrow>
          (case lookup_tracks tm pts of
             Inl e \<Rightarrow> Inl e
           | Inr rest \<Rightarrow> Inr (\<lparr>ta_track = track, ta_position = pt_position pt\<rparr> # rest)))"

text \<open>
  \<open>result.sort((a, b) => a.position - b.position)\<close>: the sort of an array is stable, as is
  the insertion sort \<open>sort_key\<close>.
\<close>

definition getPlaylistTracks :: "MemStorage \<Rightarrow> int \<Rightarrow> store_error + TrackAt list" where
  "getPlaylistTracks s pid =
     (let playlistTracksArray =
            filter (\<lambda>pt. pt_playlistId pt = pid) (map_values (playlistTracks s))
      in case lookup_tracks (tracks s) playlistTracksArray of
           Inl e \<Rightarrow> Inl e
         | Inr result \<Rightarrow> Inr (sort_key ta_position result))"

definition addTrackToPlaylist ::
    "MemStorage \<Rightarrow> InsertPlaylistTrack \<Rightarrow> (store_error + PlaylistTrack) \<times> MemStorage" where
  "addTrackToPlaylist s insertPlaylistTrack =
     (case map_get (playlists s) (ipt_playlistId insertPlaylistTrack) of
        None \<Rightarrow> (Inl (PlaylistNotFound (ipt_playlistId insertPlaylistTrack)), s)
      | Some playlist \<Rightarrow>
     (case map_get (tracks s) (ipt_trackId insertPlaylistTrack) of
        None \<Rightarrow> (Inl (TrackNotFound (ipt_trackId insertPlaylistTrack)), s)
      | Some track \<Rightarrow>
     (case array_find
             (\<lambda>pt. pt_playlistId pt = ipt_playlistId insertPlaylistTrack \<and>
                   pt_trackId pt = ipt_trackId insertPlaylistTrack)
             (map_values (playlistTracks s)) of
        Some existing \<Rightarrow> (Inr existing, s)
      | None \<Rightarrow>
          (let i = playlistTrackId s;
               playlistTrack = \<lparr>pt_id = i, pt_playlistId = ipt_playlistId insertPlaylistTrack,
                                pt_trackId = ipt_trackId insertPlaylistTrack,
                                pt_position = ipt_position insertPlaylistTrack\<rparr>
           in (Inr playlistTrack,
               s\<lparr>playlistTracks := map_set (playlistTracks s) i playlistTrack,
                 playlistTrackId := i + 1\<rparr>)))))"

definition removeTrackFromPlaylist :: "MemStorage \<Rightarrow> int \<Rightarrow> int \<Rightarrow> bool \<times> MemStorage" where
  "removeTrackFromPlaylist s pid tid =
     (case array_find (\<lambda>pt. pt_playlistId pt = pid \<and> pt_trackId pt = tid)
             (map_values (playlistTracks s)) of
        None \<Rightarrow> (False, s)
      | Some playlistTrack \<Rightarrow>
          (let (existed, m) = map_delete (playlistTracks s) (pt_id playlistTrack)
           in (existed, s\<lparr>playlistTracks := m\<rparr>)))"

text \<open>
  \<open>updateTrackPosition\<close> assigns to the stored object and sets it again under its own id.
\<close>

definition updateTrackPosition :: "MemStorage \<Rightarrow> int \<Rightarrow> int \<Rightarrow> int \<Rightarrow> bool \<times> MemStorage" where
  "updateTrackPosition s pid tid newPosition =
     (case array_find (\<lambda>pt. pt_playlistId pt = pid \<and> pt_trackId pt = tid)
             (map_values (playlistTracks s)) of
        None \<Rightarrow> (False, s)
      | Some playlistTrack \<Rightarrow>
          (True, s\<lparr>playlistTracks :=
                     map_set (playlistTracks s) (pt_id playlistTrack)
                       (playlistTrack\<lparr>pt_position := newPosition\<rparr>)\<rparr>))"

paragraph \<open>The default data and the exported store\<close>

definition defaultUser :: InsertUser where
  "defaultUser =
     \<lparr>iu_username = ''user'', iu_password = ''password'',
      iu_email = Some ''user@example.com'', iu_phone = Some ''+1 (555) 123-4567'',
      iu_fullName = Some ''Demo User'', iu_avatarColor = Some ''#1DB954''\<rparr>"

text \<open>The entries of \<open>categoryData\<close> and \<open>playlistData\<close>: name, icon, color.\<close>

definition categoryData :: "(string \<times> string \<times> string) list" where
  "categoryData =
     [(''Interviews'', ''ri-mic-fill'', ''#1DB954''),
      (''Melodies'', ''ri-file-music-fill'', ''#2D46B9''),
      (''Samples'', ''ri-sound-module-fill'', ''#F230AA''),
      (''Podcasts'', ''ri-vidicon-fill'', ''#FFC107'')]"

definition playlistData :: "(string \<times> string \<times> string) list" where
  "playlistData =
     [(''Morning Reflections'', ''ri-mic-fill'', ''#2D46B9''),
      (''Work Notes'', ''ri-album-fill'', ''#F230AA''),
      (''Song Ideas'', ''ri-music-fill'', ''#1DB954'')]"

definition initializeDefaultData :: "MemStorage \<Rightarrow> MemStorage" where
  "initializeDefaultData s =
     (let (user, s1) = createUser s defaultUser;
          s2 = foldl (\<lambda>acc (name, icon, color).
                  snd (createCategory acc
                    \<lparr>ic_name = name, ic_icon = icon, ic_color = color, ic_userId = user_id user\<rparr>))
                s1 categoryData;
          s3 = foldl (\<lambda>acc (name, icon, color).
                  snd (createPlaylist acc
                    \<lparr>ip_name = name, ip_userId = user_id user, ip_color = color, ip_icon = icon\<rparr>))
                s2 playlistData
      in s3)"

text \<open>\<open>export const storage = new MemStorage()\<close>\<close>

definition storage :: MemStorage where
  "storage = initializeDefaultData MemStorage_new"

subsection \<open>Runs of the store\<close>

text \<open>
  The calls of the interface \<open>IStorage\<close> that can change the store, with their arguments.
\<close>

datatype store_op =
    CreateUser InsertUser
  | UpdateUser int PartialInsertUser
  | CreateCategory InsertCategory
  | UpdateCategory int PartialInsertCategory
  | DeleteCategory int
  | CreatePlaylist InsertPlaylist
  | UpdatePlaylist int PartialInsertPlaylist
  | DeletePlaylist int
  | CreateTrack int InsertTrack
  | UpdateTrack int PartialInsertTrack
  | DeleteTrack int
  | AddTrackToPlaylist InsertPlaylistTrack
  | RemoveTrackFromPlaylist int int
  | UpdateTrackPosition int int int

fun exec :: "store_op \<Rightarrow> MemStorage \<Rightarrow> MemStorage" where
  "exec (CreateUser u) s = snd (createUser s u)"
| "exec (UpdateUser i u) s = snd (updateUser s i u)"
| "exec (CreateCategory c) s = snd (createCategory s c)"
| "exec (UpdateCategory i c) s = snd (updateCategory s i c)"
| "exec (DeleteCategory i) s = snd (deleteCategory s i)"
| "exec (CreatePlaylist p) s = snd (createPlaylist s p)"
| "exec (UpdatePlaylist i p) s = snd (updatePlaylist s i p)"
| "exec (DeletePlaylist i) s = snd (deletePlaylist s i)"
| "exec (CreateTrack now t) s = snd (createTrack s now t)"
| "exec (UpdateTrack i t) s = snd (updateTrack s i t)"
| "exec (DeleteTrack i) s = snd (deleteTrack s i)"
| "exec (AddTrackToPlaylist l) s = snd (addTrackToPlaylist s l)"
| "exec (RemoveTrackFromPlaylist p t) s = snd (removeTrackFromPlaylist s p t)"
| "exec (UpdateTrackPosition p t n) s = snd (updateTrackPosition s p t n)"

text \<open>The states of the exported store: the default data, then any calls.\<close>

inductive reachable :: "MemStorage \<Rightarrow> bool" where
  reachable_storage: "reachable storage"
| reachable_exec: "reachable s \<Longrightarrow> reachable (exec call s)"

datatype entity = EUser | ECategory | EPlaylist | ETrack | EPlaylistTrack

text \<open>The id counter of an entity type and the ids its map holds.\<close>

fun counter :: "entity \<Rightarrow> MemStorage \<Rightarrow> int" where
  "counter EUser s = userId s"
| "counter ECategory s = categoryId s"
| "counter EPlaylist s = playlistId s"
| "counter ETrack s = trackId s"
| "counter EPlaylistTrack s = playlistTrackId s"

fun stored_ids :: "entity \<Rightarrow> MemStorage \<Rightarrow> int list" where
  "stored_ids EUser s = map_keys (users s)"
| "stored_ids ECategory s = map_keys (categories s)"
| "stored_ids EPlaylist s = map_keys (playlists s)"
| "stored_ids ETrack s = map_keys (tracks s)"
| "stored_ids EPlaylistTrack s = map_keys (playlistTracks s)"

text \<open>
  The id a call assigns, read from the entity the call returns. \<open>addTrackToPlaylist\<close>
  assigns one only when it does not throw and finds no existing link.
\<close>

fun assigned :: "store_op \<Rightarrow> MemStorage \<Rightarrow> (entity \<times> int) option" where
  "assigned (CreateUser u) s = Some (EUser, user_id (fst (createUser s u)))"
| "assigned (CreateCategory c) s = Some (ECategory, category_id (fst (createCategory s c)))"
| "assigned (CreatePlaylist p) s = Some (EPlaylist, playlist_id (fst (createPlaylist s p)))"
| "assigned (CreateTrack now t) s = Some (ETrack, track_id (fst (createTrack s now t)))"
| "assigned (AddTrackToPlaylist l) s =
     (case fst (addTrackToPlaylist s l) of
        Inl e \<Rightarrow> None
      | Inr pt \<Rightarrow> if pt \<in> set (map_values (playlistTracks s)) then None
                  else Some (EPlaylistTrack, pt_id pt))"
| "assigned _ s = None"

text \<open>The ids of entity type \<open>e\<close> assigned along a run, in the order of the calls.\<close>

fun assigned_ids :: "entity \<Rightarrow> MemStorage \<Rightarrow> store_op list \<Rightarrow> int list" where
  "assigned_ids e s [] = []"
| "assigned_ids e s (call # calls) =
     (case assigned call s of
        Some (e', i) \<Rightarrow> if e' = e then [i] else []
      | None \<Rightarrow> []) @ assigned_ids e (exec call s) calls"

subsection \<open>Request handlers of server/routes.ts\<close>

text \<open>
  \<open>getUserFromSession\<close> sets \<open>req.user = { id: 1 }\<close> on every request.
\<close>

definition req_user_id :: int where
  "req_user_id = 1"

text \<open>The user without the password: \<open>const { password, ...userData } = user\<close>.\<close>

record UserData =
  ud_id :: int
  ud_username :: string
  ud_email :: "string option"
  ud_phone :: "string option"
  ud_fullName :: "string option"
  ud_avatarColor :: "string option"

definition userData :: "User \<Rightarrow> UserData" where
  "userData user =
     \<lparr>ud_id = user_id user, ud_username = user_username user, ud_email = user_email user,
      ud_phone = user_phone user, ud_fullName = user_fullName user,
      ud_avatarColor = user_avatarColor user\<rparr>"

text \<open>
  What a handler sends: a message, the issues of a \<open>ZodError\<close>, an entity or a list of
  entities as \<open>res.json\<close> gets them, a playlist with its \<open>{ ...track, position }\<close>, the
  file that \<open>res.sendFile\<close> is given, or nothing (\<open>res.status(204).end()\<close>, and
  \<open>res.json(undefined)\<close>).
\<close>

datatype body =
    Message string
  | ZodIssues "string list"
  | UserBody UserData
  | CategoriesBody "Category list"
  | CategoryBody Category
  | PlaylistsBody "Playlist list"
  | PlaylistBody Playlist
  | PlaylistWithTracksBody Playlist "(Track \<times> int) list"
  | TracksBody "Track list"
  | TrackBody Track
  | FileBody string
  | PlaylistTrackBody PlaylistTrack
  | NoBody

record Response =
  res_status :: int
  res_body :: body

definition respond :: "int \<Rightarrow> body \<Rightarrow> Response" where
  "respond code b = \<lparr>res_status = code, res_body = b\<rparr>"

text \<open>
  A request body is given by what the schema makes of it: \<open>Inl\<close> the issues of the
  \<open>ZodError\<close> when it does not validate, \<open>Inr\<close> its recognised keys otherwise.
\<close>

paragraph \<open>GET /users/me\<close>

definition get_users_me :: "MemStorage \<Rightarrow> Response" where
  "get_users_me s =
     (case getUser s req_user_id of
        None \<Rightarrow> respond 404 (Message ''User not found'')
      | Some user \<Rightarrow> respond 200 (UserBody (userData user)))"

paragraph \<open>PATCH /users/me\<close>

text \<open>
  \<open>insertUserSchema.partial().omit({ password: true })\<close>: every key is optional, and a
  \<open>password\<close> key of the body is not part of the parsed data.
\<close>

definition updateSchema_parse ::
    "string list + PartialInsertUser \<Rightarrow> string list + PartialInsertUser" where
  "updateSchema_parse b =
     (case b of Inl issues \<Rightarrow> Inl issues | Inr d \<Rightarrow> Inr (d\<lparr>pu_password := None\<rparr>))"

definition patch_users_me ::
    "MemStorage \<Rightarrow> string list + PartialInsertUser \<Rightarrow> Response \<times> MemStorage" where
  "patch_users_me s req_body =
     (case updateSchema_parse req_body of
        Inl issues \<Rightarrow> (respond 400 (ZodIssues issues), s)
      | Inr d \<Rightarrow>
          (case updateUser s req_user_id d of
             (None, s') \<Rightarrow> (respond 404 (Message ''User not found''), s')
           | (Some updatedUser, s') \<Rightarrow> (respond 200 (UserBody (userData updatedUser)), s')))"

paragraph \<open>GET /tracks\<close>

text \<open>
  The argument is \<open>req.query.categoryId ? parseInt(req.query.categoryId) : undefined\<close>,
  \<open>None\<close> for \<open>undefined\<close>.
\<close>

definition get_tracks :: "MemStorage \<Rightarrow> jsnum option \<Rightarrow> Response" where
  "get_tracks s cid =
     (case cid of
        Some (Num c) \<Rightarrow>
          if truthy (Num c) then
            (case getCategoryById s c of
               None \<Rightarrow> respond 403 (Message ''Not authorized to access this category'')
             | Some category \<Rightarrow>
                 if category_userId category \<noteq> req_user_id
                 then respond 403 (Message ''Not authorized to access this category'')
                 else respond 200 (TracksBody (getTracksByCategory s (Num c))))
          else respond 200 (TracksBody (getTracks s req_user_id))
      | _ \<Rightarrow> respond 200 (TracksBody (getTracks s req_user_id)))"

paragraph \<open>POST /tracks/upload\<close>

text \<open>
  The fields of the form after \<open>trackSchema.parse\<close>: \<open>categoryId\<close> and \<open>duration\<close> are
  strings put through \<open>parseInt\<close>, whose result nothing checks.
\<close>

record UploadFields =
  uf_name :: string
  uf_categoryId :: jsnum
  uf_duration :: jsnum

text \<open>\<open>file\<close> is the path of \<open>req.file\<close>, \<open>None\<close> when no file came with the request.\<close>

definition post_tracks_upload ::
    "MemStorage \<Rightarrow> int \<Rightarrow> string option \<Rightarrow> string list + UploadFields \<Rightarrow> Response \<times> MemStorage" where
  "post_tracks_upload s now file req_body =
     (case file of
        None \<Rightarrow> (respond 400 (Message ''No audio file uploaded''), s)
      | Some path \<Rightarrow>
          (case req_body of
             Inl issues \<Rightarrow> (respond 400 (ZodIssues issues), s)
           | Inr trackData \<Rightarrow>
               (let (track, s') = createTrack s now
                      \<lparr>it_name = uf_name trackData, it_userId = req_user_id,
                       it_categoryId = Some (uf_categoryId trackData),
                       it_duration = uf_duration trackData, it_filePath = path\<rparr>
                in (respond 201 (TrackBody track), s'))))"

paragraph \<open>POST /playlists/:playlistId/tracks\<close>

text \<open>
  \<open>insertPlaylistTrackSchema.parse\<close>: the three columns are numbers, and \<open>NaN\<close> is not
  one.
\<close>

definition insertPlaylistTrackSchema_parse ::
    "jsnum \<Rightarrow> jsnum \<Rightarrow> jsnum \<Rightarrow> string list + InsertPlaylistTrack" where
  "insertPlaylistTrackSchema_parse p t n =
     (case (p, t, n) of
        (Num p', Num t', Num n') \<Rightarrow>
          Inr \<lparr>ipt_playlistId = p', ipt_trackId = t', ipt_position = n'\<rparr>
      | _ \<Rightarrow> Inl [''Expected number, received nan''])"

text \<open>
  \<open>playlistTracks.length > 0 ? Math.max(...playlistTracks.map(pt => pt.position)) : -1\<close>
\<close>

definition maxPosition :: "TrackAt list \<Rightarrow> int" where
  "maxPosition listed =
     (case map ta_position listed of [] \<Rightarrow> - 1 | x # xs \<Rightarrow> foldl max x xs)"

text \<open>
  The arguments are \<open>parseInt(req.params.playlistId)\<close> and \<open>parseInt(req.body.trackId)\<close>.
  No key of a map is \<open>NaN\<close>, so \<open>getPlaylistById(NaN)\<close> is \<open>undefined\<close>. An error thrown by
  the store is not a \<open>ZodError\<close> and ends in the last line of the \<open>catch\<close>.
\<close>

definition post_playlist_tracks :: "MemStorage \<Rightarrow> jsnum \<Rightarrow> jsnum \<Rightarrow> Response \<times> MemStorage" where
  "post_playlist_tracks s pid tid =
     (case pid of
        NaN \<Rightarrow> (respond 404 (Message ''Playlist not found''), s)
      | Num p \<Rightarrow>
     (case getPlaylistById s p of
        None \<Rightarrow> (respond 404 (Message ''Playlist not found''), s)
      | Some playlist \<Rightarrow>
          if playlist_userId playlist \<noteq> req_user_id
          then (respond 403 (Message ''Not authorized to modify this playlist''), s)
          else
            (case getPlaylistTracks s p of
               Inl e \<Rightarrow> (respond 500 (Message ''Failed to add track to playlist''), s)
             | Inr listed \<Rightarrow>
                 (case insertPlaylistTrackSchema_parse (Num p) tid
                         (Num (maxPosition listed + 1)) of
                    Inl issues \<Rightarrow> (respond 400 (ZodIssues issues), s)
                  | Inr d \<Rightarrow>
                      (case addTrackToPlaylist s d of
                         (Inl e, s') \<Rightarrow>
                           (respond 500 (Message ''Failed to add track to playlist''), s')
                       | (Inr newPlaylistTrack, s') \<Rightarrow>
                           (respond 201 (PlaylistTrackBody newPlaylistTrack), s'))))))"

paragraph \<open>The categories\<close>

definition get_categories :: "MemStorage \<Rightarrow> Response" where
  "get_categories s = respond 200 (CategoriesBody (getCategories s req_user_id))"

text \<open>
  \<open>insertCategorySchema.parse({ ...req.body, userId: req.user.id })\<close>: whatever the body
  says, the \<open>userId\<close> of the parsed data is the session user.
\<close>

definition post_categories ::
    "MemStorage \<Rightarrow> string list + InsertCategory \<Rightarrow> Response \<times> MemStorage" where
  "post_categories s req_body =
     (case req_body of
        Inl issues \<Rightarrow> (respond 400 (ZodIssues issues), s)
      | Inr d \<Rightarrow>
          (let (newCategory, s') = createCategory s (d\<lparr>ic_userId := req_user_id\<rparr>)
           in (respond 201 (CategoryBody newCategory), s')))"

text \<open>
  \<open>insertCategorySchema.partial().omit({ userId: true })\<close> is applied after the category is
  found and its owner checked.
\<close>

definition patch_categories ::
    "MemStorage \<Rightarrow> jsnum \<Rightarrow> string list + PartialInsertCategory \<Rightarrow> Response \<times> MemStorage" where
  "patch_categories s cid req_body =
     (case cid of
        NaN \<Rightarrow> (respond 404 (Message ''Category not found''), s)
      | Num i \<Rightarrow>
     (case getCategoryById s i of
        None \<Rightarrow> (respond 404 (Message ''Category not found''), s)
      | Some category \<Rightarrow>
          if category_userId category \<noteq> req_user_id
          then (respond 403 (Message ''Not authorized to update this category''), s)
          else
            (case req_body of
               Inl issues \<Rightarrow> (respond 400 (ZodIssues issues), s)
             | Inr d \<Rightarrow>
                 (case updateCategory s i (d\<lparr>pc_userId := None\<rparr>) of
                    (None, s') \<Rightarrow> (respond 200 NoBody, s')
                  | (Some updatedCategory, s') \<Rightarrow>
                      (respond 200 (CategoryBody updatedCategory), s')))))"

definition delete_categories :: "MemStorage \<Rightarrow> jsnum \<Rightarrow> Response \<times> MemStorage" where
  "delete_categories s cid =
     (case cid of
        NaN \<Rightarrow> (respond 404 (Message ''Category not found''), s)
      | Num i \<Rightarrow>
     (case getCategoryById s i of
        None \<Rightarrow> (respond 404 (Message ''Category not found''), s)
      | Some category \<Rightarrow>
          if category_userId category \<noteq> req_user_id
          then (respond 403 (Message ''Not authorized to delete this category''), s)
          else
            (case deleteCategory s i of
               (success, s') \<Rightarrow>
                 if \<not> success then (respond 500 (Message ''Failed to delete category''), s')
                 else (respond 204 NoBody, s'))))"

paragraph \<open>The playlists\<close>

definition get_playlists :: "MemStorage \<Rightarrow> Response" where
  "get_playlists s = respond 200 (PlaylistsBody (getPlaylists s req_user_id))"

definition get_playlist :: "MemStorage \<Rightarrow> jsnum \<Rightarrow> Response" where
  "get_playlist s pid =
     (case pid of
        NaN \<Rightarrow> respond 404 (Message ''Playlist not found'')
      | Num i \<Rightarrow>
     (case getPlaylistById s i of
        None \<Rightarrow> respond 404 (Message ''Playlist not found'')
      | Some playlist \<Rightarrow>
          if playlist_userId playlist \<noteq> req_user_id
          then respond 403 (Message ''Not authorized to access this playlist'')
          else
            (case getPlaylistTracks s i of
               Inl e \<Rightarrow> respond 500 (Message ''Failed to get playlist'')
             | Inr listed \<Rightarrow>
                 respond 200 (PlaylistWithTracksBody playlist
                   (map (\<lambda>e. (ta_track e, ta_position e)) listed)))))"

definition post_playlists ::
    "MemStorage \<Rightarrow> string list + InsertPlaylist \<Rightarrow> Response \<times> MemStorage" where
  "post_playlists s req_body =
     (case req_body of
        Inl issues \<Rightarrow> (respond 400 (ZodIssues issues), s)
      | Inr d \<Rightarrow>
          (let (newPlaylist, s') = createPlaylist s (d\<lparr>ip_userId := req_user_id\<rparr>)
           in (respond 201 (PlaylistBody newPlaylist), s')))"

definition patch_playlists ::
    "MemStorage \<Rightarrow> jsnum \<Rightarrow> string list + PartialInsertPlaylist \<Rightarrow> Response \<times> MemStorage" where
  "patch_playlists s pid req_body =
     (case pid of
        NaN \<Rightarrow> (respond 404 (Message ''Playlist not found''), s)
      | Num i \<Rightarrow>
     (case getPlaylistById s i of
        None \<Rightarrow> (respond 404 (Message ''Playlist not found''), s)
      | Some playlist \<Rightarrow>
          if playlist_userId playlist \<noteq> req_user_id
          then (respond 403 (Message ''Not authorized to update this playlist''), s)
          else
            (case req_body of
               Inl issues \<Rightarrow> (respond 400 (ZodIssues issues), s)
             | Inr d \<Rightarrow>
                 (case updatePlaylist s i (d\<lparr>pp_userId := None\<rparr>) of
                    (None, s') \<Rightarrow> (respond 200 NoBody, s')
                  | (Some updatedPlaylist, s') \<Rightarrow>
                      (respond 200 (PlaylistBody updatedPlaylist), s')))))"

definition delete_playlists :: "MemStorage \<Rightarrow> jsnum \<Rightarrow> Response \<times> MemStorage" where
  "delete_playlists s pid =
     (case pid of
        NaN \<Rightarrow> (respond 404 (Message ''Playlist not found''), s)
      | Num i \<Rightarrow>
     (case getPlaylistById s i of
        None \<Rightarrow> (respond 404 (Message ''Playlist not found''), s)
      | Some playlist \<Rightarrow>
          if playlist_userId playlist \<noteq> req_user_id
          then (respond 403 (Message ''Not authorized to delete this playlist''), s)
          else
            (case deletePlaylist s i of
               (success, s') \<Rightarrow>
                 if \<not> success then (respond 500 (Message ''Failed to delete playlist''), s')
                 else (respond 204 NoBody, s'))))"

paragraph \<open>GET /tracks/:id/audio and DELETE /tracks/:id\<close>

text \<open>The file system is not part of the model: the answer names the file that is sent.\<close>

definition get_track_audio :: "MemStorage \<Rightarrow> jsnum \<Rightarrow> Response" where
  "get_track_audio s tid =
     (case tid of
        NaN \<Rightarrow> respond 404 (Message ''Track not found'')
      | Num i \<Rightarrow>
     (case getTrackById s i of
        None \<Rightarrow> respond 404 (Message ''Track not found'')
      | Some track \<Rightarrow>
          if track_userId track \<noteq> req_user_id
          then respond 403 (Message ''Not authorized to access this track'')
          else respond 200 (FileBody (track_filePath track))))"

text \<open>
  After the track is deleted from the store its file is unlinked, and a failure of that is
  only logged.
\<close>

definition delete_tracks :: "MemStorage \<Rightarrow> jsnum \<Rightarrow> Response \<times> MemStorage" where
  "delete_tracks s tid =
     (case tid of
        NaN \<Rightarrow> (respond 404 (Message ''Track not found''), s)
      | Num i \<Rightarrow>
     (case getTrackById s i of
        None \<Rightarrow> (respond 404 (Message ''Track not found''), s)
      | Some track \<Rightarrow>
          if track_userId track \<noteq> req_user_id
          then (respond 403 (Message ''Not authorized to delete this track''), s)
          else
            (case deleteTrack s i of
               (success, s') \<Rightarrow>
                 if \<not> success then (respond 500 (Message ''Failed to delete track''), s')
                 else (respond 204 NoBody, s'))))"

paragraph \<open>DELETE /playlists/:playlistId/tracks/:trackId\<close>

text \<open>
  No link has a \<open>trackId\<close> that is \<open>NaN\<close>, so \<open>removeTrackFromPlaylist\<close> finds none for
  it and returns \<open>false\<close>.
\<close>

definition delete_playlist_tracks ::
    "MemStorage \<Rightarrow> jsnum \<Rightarrow> jsnum \<Rightarrow> Response \<times> MemStorage" where
  "delete_playlist_tracks s pid tid =
     (case pid of
        NaN \<Rightarrow> (respond 404 (Message ''Playlist not found''), s)
      | Num p \<Rightarrow>
     (case getPlaylistById s p of
        None \<Rightarrow> (respond 404 (Message ''Playlist not found''), s)
      | Some playlist \<Rightarrow>
          if playlist_userId playlist \<noteq> req_user_id
          then (respond 403 (Message ''Not authorized to modify this playlist''), s)
          else
            (case (case tid of NaN \<Rightarrow> (False, s) | Num t \<Rightarrow> removeTrackFromPlaylist s p t) of
               (success, s') \<Rightarrow>
                 if \<not> success then (respond 404 (Message ''Track not found in playlist''), s')
                 else (respond 204 NoBody, s'))))"

paragraph \<open>The router\<close>

text \<open>The requests that \<open>apiRouter\<close> routes, with what the handlers read of them.\<close>

datatype request =
    GET_users_me
  | PATCH_users_me "string list + PartialInsertUser"
  | GET_categories
  | POST_categories "string list + InsertCategory"
  | PATCH_categories jsnum "string list + PartialInsertCategory"
  | DELETE_categories jsnum
  | GET_playlists
  | GET_playlist jsnum
  | POST_playlists "string list + InsertPlaylist"
  | PATCH_playlists jsnum "string list + PartialInsertPlaylist"
  | DELETE_playlists jsnum
  | GET_tracks "jsnum option"
  | POST_tracks_upload int "string option" "string list + UploadFields"
  | GET_track_audio jsnum
  | DELETE_tracks jsnum
  | POST_playlist_tracks jsnum jsnum
  | DELETE_playlist_tracks jsnum jsnum

fun handle :: "request \<Rightarrow> MemStorage \<Rightarrow> Response \<times> MemStorage" where
  "handle GET_users_me s = (get_users_me s, s)"
| "handle (PATCH_users_me b) s = patch_users_me s b"
| "handle GET_categories s = (get_categories s, s)"
| "handle (POST_categories b) s = post_categories s b"
| "handle (PATCH_categories i b) s = patch_categories s i b"
| "handle (DELETE_categories i) s = delete_categories s i"
| "handle GET_playlists s = (get_playlists s, s)"
| "handle (GET_playlist i) s = (get_playlist s i, s)"
| "handle (POST_playlists b) s = post_playlists s b"
| "handle (PATCH_playlists i b) s = patch_playlists s i b"
| "handle (DELETE_playlists i) s = delete_playlists s i"
| "handle (GET_tracks c) s = (get_tracks s c, s)"
| "handle (POST_tracks_upload now file b) s = post_tracks_upload s now file b"
| "handle (GET_track_audio i) s = (get_track_audio s i, s)"
| "handle (DELETE_tracks i) s = delete_tracks s i"
| "handle (POST_playlist_tracks p t) s = post_playlist_tracks s p t"
| "handle (DELETE_playlist_tracks p t) s = delete_playlist_tracks s p t"

text \<open>The states of the store of the running server: the default data, then any requests.\<close>

inductive served :: "MemStorage \<Rightarrow> bool" where
  served_storage: "served storage"
| served_handle: "served s \<Longrightarrow> served (snd (handle request s))"

text \<open>Everything the store holds for a user belongs to the session user.\<close>

definition owned_by_session_user :: "MemStorage \<Rightarrow> bool" where
  "owned_by_session_user s \<longleftrightarrow>
     (\<forall>category\<in>set (map_values (categories s)). category_userId category = req_user_id) \<and>
     (\<forall>playlist\<in>set (map_values (playlists s)). playlist_userId playlist = req_user_id) \<and>
     (\<forall>track\<in>set (map_values (tracks s)). track_userId track = req_user_id)"

subsection \<open>Well-formed stores\<close>

text \<open>Every entry of a map sits under the id of its value.\<close>

definition keys_match :: "('v \<Rightarrow> int) \<Rightarrow> 'v jsmap \<Rightarrow> bool" where
  "keys_match f m = (\<forall>p\<in>set m. f (snd p) = fst p)"

text \<open>
  What holds of the store between any two calls: the keys of a map are distinct and are the
  ids of the values, all of them below the counter; a link refers to a playlist and a track
  that exist; no two links join the same playlist and track.
\<close>

definition store_inv :: "MemStorage \<Rightarrow> bool" where
  "store_inv s \<longleftrightarrow>
     distinct (map_keys (users s)) \<and> distinct (map_keys (categories s)) \<and>
     distinct (map_keys (playlists s)) \<and> distinct (map_keys (tracks s)) \<and>
     distinct (map_keys (playlistTracks s)) \<and>
     keys_match user_id (users s) \<and> keys_match category_id (categories s) \<and>
     keys_match playlist_id (playlists s) \<and> keys_match track_id (tracks s) \<and>
     keys_match pt_id (playlistTracks s) \<and>
     (\<forall>k\<in>set (map_keys (users s)). k < userId s) \<and>
     (\<forall>k\<in>set (map_keys (categories s)). k < categoryId s) \<and>
     (\<forall>k\<in>set (map_keys (playlists s)). k < playlistId s) \<and>
     (\<forall>k\<in>set (map_keys (tracks s)). k < trackId s) \<and>
     (\<forall>k\<in>set (map_keys (playlistTracks s)). k < playlistTrackId s) \<and>
     (\<forall>pt\<in>set (map_values (playlistTracks s)).
        pt_playlistId pt \<in> set (map_keys (playlists s)) \<and>
        pt_trackId pt \<in> set (map_keys (tracks s))) \<and>
     distinct (map (\<lambda>pt. (pt_playlistId pt, pt_trackId pt)) (map_values (playlistTracks s)))"

subsection \<open>An example run\<close>

text \<open>
  One track is created in the default store and added to playlist 1 at position 0.
\<close>

definition demo_track :: InsertTrack where
  "demo_track =
     \<lparr>it_name = ''memo'', it_userId = 1, it_categoryId = Some (Num 1), it_duration = Num 42,
      it_filePath = ''uploads/1-1.webm''\<rparr>"

definition demo_store :: MemStorage where
  "demo_store =
     exec (AddTrackToPlaylist \<lparr>ipt_playlistId = 1, ipt_trackId = 1, ipt_position = 0\<rparr>)
       (exec (CreateTrack 1000 demo_track) storage)"

text \<open>Two tracks are uploaded to the default store; no playlist has a track yet.\<close>

definition demo_form :: UploadFields where
  "demo_form = \<lparr>uf_name = ''memo'', uf_categoryId = Num 1, uf_duration = Num 42\<rparr>"

definition two_tracks_store :: MemStorage where
  "two_tracks_store =
     snd (handle (POST_tracks_upload 1001 (Some ''uploads/1-1.webm'') (Inr demo_form))
       (snd (handle (POST_tracks_upload 1000 (Some ''uploads/1-1.webm'') (Inr demo_form))
          storage)))"

text \<open>A run of calls, and the calls that \<open>initializeDefaultData\<close> makes.\<close>

fun run :: "store_op list \<Rightarrow> MemStorage \<Rightarrow> MemStorage" where
  "run [] s = s"
| "run (call # calls) s = run calls (exec call s)"

definition default_calls :: "store_op list" where
  "default_calls =
     CreateUser defaultUser #
     map (\<lambda>(name, icon, color). CreateCategory
            \<lparr>ic_name = name, ic_icon = icon, ic_color = color, ic_userId = 1\<rparr>) categoryData @
     map (\<lambda>(name, icon, color). CreatePlaylist
            \<lparr>ip_name = name, ip_userId = 1, ip_color = color, ip_icon = icon\<rparr>) playlistData"

subsection \<open>Stores that differ in a password; unique usernames\<close>

text \<open>The store with the password of user \<open>uid\<close> replaced, everything else as it is.\<close>

definition with_password :: "MemStorage \<Rightarrow> int \<Rightarrow> string \<Rightarrow> MemStorage" where
  "with_password s uid pw =
     s\<lparr>users := map (\<lambda>(k, user). if k = uid then (k, user\<lparr>user_password := pw\<rparr>)
                                   else (k, user)) (users s)\<rparr>"

text \<open>No two stored users have the same username.\<close>

definition usernames_unique :: "MemStorage \<Rightarrow> bool" where
  "usernames_unique s = distinct (map user_username (map_values (users s)))"

text \<open>
  The default store with a track that \<open>createTrack\<close> is given for user 2, in category 1
  of the session user.
\<close>

definition foreign_track_store :: MemStorage where
  "foreign_track_store = exec (CreateTrack 1000 (demo_track\<lparr>it_userId := 2\<rparr>)) storage"

section \<open>Properties\<close>

subsection \<open>The map operations\<close>

lemma map_get_map_set: "map_get (map_set m k v) j = (if j = k then Some v else map_get m j)"
  by (induction m) (auto simp: map_get_def)

lemma map_get_None_iff: "map_get m k = None \<longleftrightarrow> k \<notin> set (map_keys m)"
  by (simp add: map_get_def map_keys_def map_of_eq_None_iff)

lemma map_get_SomeD: "map_get m k = Some v \<Longrightarrow> (k, v) \<in> set m"
  by (simp add: map_get_def map_of_SomeD)

lemma map_get_Some_key: "map_get m k = Some v \<Longrightarrow> k \<in> set (map_keys m)"
  using map_get_None_iff [of m k] by auto

lemma map_get_distinct: "distinct (map_keys m) \<Longrightarrow> (k, v) \<in> set m \<Longrightarrow> map_get m k = Some v"
  by (simp add: map_get_def map_keys_def)

lemma set_keys_map_set: "set (map_keys (map_set m k v)) = insert k (set (map_keys m))"
  by (induction m) (auto simp: map_keys_def)

lemma map_set_fresh: "k \<notin> set (map_keys m) \<Longrightarrow> map_set m k v = m @ [(k, v)]"
  by (induction m) (auto simp: map_keys_def)

lemma map_keys_map_set_old: "k \<in> set (map_keys m) \<Longrightarrow> map_keys (map_set m k v) = map_keys m"
  by (induction m) (auto simp: map_keys_def)

lemma distinct_map_set: "distinct (map_keys m) \<Longrightarrow> distinct (map_keys (map_set m k v))"
  by (cases "k \<in> set (map_keys m)")
     (simp_all add: map_keys_map_set_old map_set_fresh, simp add: map_keys_def)

lemma set_map_set_subset: "set (map_set m k v) \<subseteq> insert (k, v) (set m)"
  by (induction m) auto

lemma keys_match_map_set: "keys_match f m \<Longrightarrow> f v = k \<Longrightarrow> keys_match f (map_set m k v)"
  using set_map_set_subset [of m k v] by (auto simp: keys_match_def)

lemma map_set_same_image:
  "map_get m k = Some v \<Longrightarrow> f v' = f v \<Longrightarrow>
   map f (map_values (map_set m k v')) = map f (map_values m)"
  by (induction m) (auto simp: map_get_def map_values_def split: if_splits)

lemma snd_map_delete: "snd (map_delete m k) = filter (\<lambda>p. fst p \<noteq> k) m"
  by (simp add: map_delete_def)

lemma fst_map_delete: "fst (map_delete m k) = (k \<in> set (map_keys m))"
  by (simp add: map_delete_def)

lemma map_delete_absent: "k \<notin> set (map_keys m) \<Longrightarrow> map_delete m k = (False, m)"
  by (auto simp: map_delete_def map_keys_def filter_id_conv)

text \<open>The \<open>forEach\<close> of a cascade removes the entries whose key is the id of a doomed link.\<close>

lemma delete_links_filter:
  "delete_links m doomed = filter (\<lambda>p. fst p \<notin> set (map pt_id doomed)) m"
proof (induction doomed arbitrary: m)
  case Nil
  show ?case by (simp add: delete_links_def)
next
  case (Cons pt doomed)
  have "delete_links m (pt # doomed) = delete_links (filter (\<lambda>p. fst p \<noteq> pt_id pt) m) doomed"
    by (simp add: delete_links_def map_delete_def)
  also have "\<dots> = filter (\<lambda>p. fst p \<notin> set (map pt_id doomed)) (filter (\<lambda>p. fst p \<noteq> pt_id pt) m)"
    by (rule Cons.IH)
  also have "\<dots> = filter (\<lambda>p. fst p \<notin> set (map pt_id (pt # doomed))) m"
    by (auto intro: filter_cong)
  finally show ?case .
qed

text \<open>In a well-formed map of links these are exactly the doomed links.\<close>

lemma delete_links_cascade:
  assumes d: "distinct (map_keys m)" and k: "keys_match pt_id m"
  shows "delete_links m (filter P (map_values m)) = filter (\<lambda>p. \<not> P (snd p)) m"
proof -
  have h: "(fst p \<notin> set (map pt_id (filter P (map_values m)))) = (\<not> P (snd p))"
    if p: "p \<in> set m" for p
  proof
    assume a: "fst p \<notin> set (map pt_id (filter P (map_values m)))"
    show "\<not> P (snd p)"
    proof
      assume "P (snd p)"
      with p have "snd p \<in> set (filter P (map_values m))" by (auto simp: map_values_def)
      then have "pt_id (snd p) \<in> set (map pt_id (filter P (map_values m)))"
        by (metis imageI set_map)
      with k p a show False by (auto simp: keys_match_def)
    qed
  next
    assume np: "\<not> P (snd p)"
    show "fst p \<notin> set (map pt_id (filter P (map_values m)))"
    proof
      assume "fst p \<in> set (map pt_id (filter P (map_values m)))"
      then obtain q where q: "q \<in> set m" "P (snd q)" "pt_id (snd q) = fst p"
        by (auto simp: map_values_def)
      with k have "fst q = fst p" by (auto simp: keys_match_def)
      with d p q have "q = p"
        by (metis eq_key_imp_eq_value map_keys_def prod.collapse)
      with q np show False by simp
    qed
  qed
  show ?thesis
    unfolding delete_links_filter by (rule filter_cong [OF refl]) (rule h)
qed

subsection \<open>The default data\<close>

lemma storage_eval:
  "storage =
     \<lparr>users =
        [(1, \<lparr>user_id = 1, user_username = ''user'', user_password = ''password'',
               user_email = Some ''user@example.com'', user_phone = Some ''+1 (555) 123-4567'',
               user_fullName = Some ''Demo User'', user_avatarColor = Some ''#1DB954''\<rparr>)],
      categories =
        [(1, \<lparr>category_id = 1, category_name = ''Interviews'', category_icon = ''ri-mic-fill'',
               category_color = ''#1DB954'', category_userId = 1\<rparr>),
         (2, \<lparr>category_id = 2, category_name = ''Melodies'',
               category_icon = ''ri-file-music-fill'', category_color = ''#2D46B9'',
               category_userId = 1\<rparr>),
         (3, \<lparr>category_id = 3, category_name = ''Samples'',
               category_icon = ''ri-sound-module-fill'', category_color = ''#F230AA'',
               category_userId = 1\<rparr>),
         (4, \<lparr>category_id = 4, category_name = ''Podcasts'', category_icon = ''ri-vidicon-fill'',
               category_color = ''#FFC107'', category_userId = 1\<rparr>)],
      playlists =
        [(1, \<lparr>playlist_id = 1, playlist_name = ''Morning Reflections'', playlist_userId = 1,
               playlist_color = ''#2D46B9'', playlist_icon = ''ri-mic-fill''\<rparr>),
         (2, \<lparr>playlist_id = 2, playlist_name = ''Work Notes'', playlist_userId = 1,
               playlist_color = ''#F230AA'', playlist_icon = ''ri-album-fill''\<rparr>),
         (3, \<lparr>playlist_id = 3, playlist_name = ''Song Ideas'', playlist_userId = 1,
               playlist_color = ''#1DB954'', playlist_icon = ''ri-music-fill''\<rparr>)],
      tracks = [], playlistTracks = [],
      userId = 2, categoryId = 5, playlistId = 4, trackId = 1, playlistTrackId = 1\<rparr>"
  by (simp add: storage_def initializeDefaultData_def MemStorage_new_def createUser_def
      createCategory_def createPlaylist_def defaultUser_def categoryData_def playlistData_def
      Let_def)

subsection \<open>Updates\<close>

lemma updateUser_absent: "getUser s i = None \<Longrightarrow> updateUser s i upd = (None, s)"
  by (simp add: getUser_def updateUser_def)

lemma updateUser_merge:
  "getUser s i = Some user \<Longrightarrow> updateUser s i upd = (r, s') \<Longrightarrow>
     \<exists>user'. r = Some user' \<and> s' = s\<lparr>users := map_set (users s) i user'\<rparr> \<and>
        user_id user' = user_id user \<and>
        user_username user' = spread (user_username user) (pu_username upd) \<and>
        user_password user' = spread (user_password user) (pu_password upd) \<and>
        user_email user' = spread (user_email user) (pu_email upd) \<and>
        user_phone user' = spread (user_phone user) (pu_phone upd) \<and>
        user_fullName user' = spread (user_fullName user) (pu_fullName upd) \<and>
        user_avatarColor user' = spread (user_avatarColor user) (pu_avatarColor upd)"
  by (auto simp: getUser_def updateUser_def Let_def)

lemma updateCategory_absent:
  "getCategoryById s i = None \<Longrightarrow> updateCategory s i upd = (None, s)"
  by (simp add: getCategoryById_def updateCategory_def)

lemma updateCategory_merge:
  "getCategoryById s i = Some c \<Longrightarrow> updateCategory s i upd = (r, s') \<Longrightarrow>
     \<exists>c'. r = Some c' \<and> s' = s\<lparr>categories := map_set (categories s) i c'\<rparr> \<and>
        category_id c' = category_id c \<and>
        category_name c' = spread (category_name c) (pc_name upd) \<and>
        category_icon c' = spread (category_icon c) (pc_icon upd) \<and>
        category_color c' = spread (category_color c) (pc_color upd) \<and>
        category_userId c' = spread (category_userId c) (pc_userId upd)"
  by (auto simp: getCategoryById_def updateCategory_def Let_def)

lemma updatePlaylist_absent:
  "getPlaylistById s i = None \<Longrightarrow> updatePlaylist s i upd = (None, s)"
  by (simp add: getPlaylistById_def updatePlaylist_def)

lemma updatePlaylist_merge:
  "getPlaylistById s i = Some p \<Longrightarrow> updatePlaylist s i upd = (r, s') \<Longrightarrow>
     \<exists>p'. r = Some p' \<and> s' = s\<lparr>playlists := map_set (playlists s) i p'\<rparr> \<and>
        playlist_id p' = playlist_id p \<and>
        playlist_name p' = spread (playlist_name p) (pp_name upd) \<and>
        playlist_userId p' = spread (playlist_userId p) (pp_userId upd) \<and>
        playlist_color p' = spread (playlist_color p) (pp_color upd) \<and>
        playlist_icon p' = spread (playlist_icon p) (pp_icon upd)"
  by (auto simp: getPlaylistById_def updatePlaylist_def Let_def)

lemma updateTrack_absent: "getTrackById s i = None \<Longrightarrow> updateTrack s i upd = (None, s)"
  by (simp add: getTrackById_def updateTrack_def)

lemma updateTrack_merge:
  "getTrackById s i = Some t \<Longrightarrow> updateTrack s i upd = (r, s') \<Longrightarrow>
     \<exists>t'. r = Some t' \<and> s' = s\<lparr>tracks := map_set (tracks s) i t'\<rparr> \<and>
        track_id t' = track_id t \<and>
        track_createdAt t' = track_createdAt t \<and>
        track_name t' = spread (track_name t) (ptr_name upd) \<and>
        track_userId t' = spread (track_userId t) (ptr_userId upd) \<and>
        track_categoryId t' = spread (track_categoryId t) (ptr_categoryId upd) \<and>
        track_duration t' = spread (track_duration t) (ptr_duration upd) \<and>
        track_filePath t' = spread (track_filePath t) (ptr_filePath upd)"
  by (auto simp: getTrackById_def updateTrack_def Let_def)

text \<open>
  C6. An update of an id the map does not hold returns \<open>undefined\<close> (\<open>None\<close>) and
  leaves the store as it was. An update of an id the map holds returns the merged entity and
  stores it under the same id, nothing else of the store changing; in the merged entity a
  field is the one provided when the partial provides it and the old one otherwise (this is
  \<open>spread\<close>), and the id, and for a track \<open>createdAt\<close>, which no partial can provide, are
  the old ones. This for users, categories, playlists and tracks.
\<close>

theorem update_merges_provided_fields_only:
  "(getUser s i = None \<longrightarrow> updateUser s i uu = (None, s)) \<and>
   (getCategoryById s i = None \<longrightarrow> updateCategory s i uc = (None, s)) \<and>
   (getPlaylistById s i = None \<longrightarrow> updatePlaylist s i up = (None, s)) \<and>
   (getTrackById s i = None \<longrightarrow> updateTrack s i ut = (None, s)) \<and>
   (\<forall>user. getUser s i = Some user \<longrightarrow>
      (\<exists>user'. updateUser s i uu = (Some user', s\<lparr>users := map_set (users s) i user'\<rparr>) \<and>
         user_id user' = user_id user \<and>
         user_username user' = spread (user_username user) (pu_username uu) \<and>
         user_password user' = spread (user_password user) (pu_password uu) \<and>
         user_email user' = spread (user_email user) (pu_email uu) \<and>
         user_phone user' = spread (user_phone user) (pu_phone uu) \<and>
         user_fullName user' = spread (user_fullName user) (pu_fullName uu) \<and>
         user_avatarColor user' = spread (user_avatarColor user) (pu_avatarColor uu))) \<and>
   (\<forall>c. getCategoryById s i = Some c \<longrightarrow>
      (\<exists>c'. updateCategory s i uc = (Some c', s\<lparr>categories := map_set (categories s) i c'\<rparr>) \<and>
         category_id c' = category_id c \<and>
         category_name c' = spread (category_name c) (pc_name uc) \<and>
         category_icon c' = spread (category_icon c) (pc_icon uc) \<and>
         category_color c' = spread (category_color c) (pc_color uc) \<and>
         category_userId c' = spread (category_userId c) (pc_userId uc))) \<and>
   (\<forall>p. getPlaylistById s i = Some p \<longrightarrow>
      (\<exists>p'. updatePlaylist s i up = (Some p', s\<lparr>playlists := map_set (playlists s) i p'\<rparr>) \<and>
         playlist_id p' = playlist_id p \<and>
         playlist_name p' = spread (playlist_name p) (pp_name up) \<and>
         playlist_userId p' = spread (playlist_userId p) (pp_userId up) \<and>
         playlist_color p' = spread (playlist_color p) (pp_color up) \<and>
         playlist_icon p' = spread (playlist_icon p) (pp_icon up))) \<and>
   (\<forall>t. getTrackById s i = Some t \<longrightarrow>
      (\<exists>t'. updateTrack s i ut = (Some t', s\<lparr>tracks := map_set (tracks s) i t'\<rparr>) \<and>
         track_id t' = track_id t \<and>
         track_createdAt t' = track_createdAt t \<and>
         track_name t' = spread (track_name t) (ptr_name ut) \<and>
         track_userId t' = spread (track_userId t) (ptr_userId ut) \<and>
         track_categoryId t' = spread (track_categoryId t) (ptr_categoryId ut) \<and>
         track_duration t' = spread (track_duration t) (ptr_duration ut) \<and>
         track_filePath t' = spread (track_filePath t) (ptr_filePath ut)))"
proof (intro conjI allI impI)
  fix user assume "getUser s i = Some user"
  from updateUser_merge [OF this surjective_pairing]
  show "\<exists>user'. updateUser s i uu = (Some user', s\<lparr>users := map_set (users s) i user'\<rparr>) \<and>
         user_id user' = user_id user \<and>
         user_username user' = spread (user_username user) (pu_username uu) \<and>
         user_password user' = spread (user_password user) (pu_password uu) \<and>
         user_email user' = spread (user_email user) (pu_email uu) \<and>
         user_phone user' = spread (user_phone user) (pu_phone uu) \<and>
         user_fullName user' = spread (user_fullName user) (pu_fullName uu) \<and>
         user_avatarColor user' = spread (user_avatarColor user) (pu_avatarColor uu)"
    by (metis prod.collapse)
next
  fix c assume "getCategoryById s i = Some c"
  from updateCategory_merge [OF this surjective_pairing]
  show "\<exists>c'. updateCategory s i uc = (Some c', s\<lparr>categories := map_set (categories s) i c'\<rparr>) \<and>
         category_id c' = category_id c \<and>
         category_name c' = spread (category_name c) (pc_name uc) \<and>
         category_icon c' = spread (category_icon c) (pc_icon uc) \<and>
         category_color c' = spread (category_color c) (pc_color uc) \<and>
         category_userId c' = spread (category_userId c) (pc_userId uc)"
    by (metis prod.collapse)
next
  fix p assume "getPlaylistById s i = Some p"
  from updatePlaylist_merge [OF this surjective_pairing]
  show "\<exists>p'. updatePlaylist s i up = (Some p', s\<lparr>playlists := map_set (playlists s) i p'\<rparr>) \<and>
         playlist_id p' = playlist_id p \<and>
         playlist_name p' = spread (playlist_name p) (pp_name up) \<and>
         playlist_userId p' = spread (playlist_userId p) (pp_userId up) \<and>
         playlist_color p' = spread (playlist_color p) (pp_color up) \<and>
         playlist_icon p' = spread (playlist_icon p) (pp_icon up)"
    by (metis prod.collapse)
next
  fix t assume "getTrackById s i = Some t"
  from updateTrack_merge [OF this surjective_pairing]
  show "\<exists>t'. updateTrack s i ut = (Some t', s\<lparr>tracks := map_set (tracks s) i t'\<rparr>) \<and>
         track_id t' = track_id t \<and>
         track_createdAt t' = track_createdAt t \<and>
         track_name t' = spread (track_name t) (ptr_name ut) \<and>
         track_userId t' = spread (track_userId t) (ptr_userId ut) \<and>
         track_categoryId t' = spread (track_categoryId t) (ptr_categoryId ut) \<and>
         track_duration t' = spread (track_duration t) (ptr_duration ut) \<and>
         track_filePath t' = spread (track_filePath t) (ptr_filePath ut)"
    by (metis prod.collapse)
qed (simp_all add: updateUser_absent updateCategory_absent updatePlaylist_absent updateTrack_absent)


theorem update_merges_provided_fields_only_witness:
  "getTrackById storage 1 = None \<and>
   updateTrack storage 1
     \<lparr>ptr_name = Some ''memo'', ptr_userId = None, ptr_categoryId = None, ptr_duration = None,
      ptr_filePath = None\<rparr> = (None, storage) \<and>
   getUser storage 1 \<noteq> None \<and>
   (\<exists>user'. updateUser storage 1
        \<lparr>pu_username = Some ''bob'', pu_password = None, pu_email = Some None, pu_phone = None,
         pu_fullName = None, pu_avatarColor = None\<rparr> =
        (Some user', storage\<lparr>users := map_set (users storage) 1 user'\<rparr>) \<and>
      user_id user' = 1 \<and> user_username user' = ''bob'' \<and> user_password user' = ''password'' \<and>
      user_email user' = None \<and> user_phone user' = Some ''+1 (555) 123-4567'')"
proof -
  let ?u = "\<lparr>user_id = 1, user_username = ''user'', user_password = ''password'',
             user_email = Some ''user@example.com'', user_phone = Some ''+1 (555) 123-4567'',
             user_fullName = Some ''Demo User'', user_avatarColor = Some ''#1DB954''\<rparr>"
  have absent: "getTrackById storage 1 = None"
    by (simp add: storage_eval getTrackById_def map_get_def)
  have present: "getUser storage 1 = Some ?u"
    by (simp add: storage_eval getUser_def map_get_def)
  note merge = update_merges_provided_fields_only [of storage 1
      "\<lparr>pu_username = Some ''bob'', pu_password = None, pu_email = Some None, pu_phone = None,
        pu_fullName = None, pu_avatarColor = None\<rparr>"
      "\<lparr>pc_name = None, pc_icon = None, pc_color = None, pc_userId = None\<rparr>"
      "\<lparr>pp_name = None, pp_userId = None, pp_color = None, pp_icon = None\<rparr>"
      "\<lparr>ptr_name = Some ''memo'', ptr_userId = None, ptr_categoryId = None,
        ptr_duration = None, ptr_filePath = None\<rparr>"]
  from merge absent have 1: "updateTrack storage 1
     \<lparr>ptr_name = Some ''memo'', ptr_userId = None, ptr_categoryId = None, ptr_duration = None,
      ptr_filePath = None\<rparr> = (None, storage)"
    by blast
  from merge present obtain user' where 2: "updateUser storage 1
        \<lparr>pu_username = Some ''bob'', pu_password = None, pu_email = Some None, pu_phone = None,
         pu_fullName = None, pu_avatarColor = None\<rparr> =
        (Some user', storage\<lparr>users := map_set (users storage) 1 user'\<rparr>)"
     and 3: "user_id user' = user_id ?u"
       "user_username user' = spread (user_username ?u) (Some ''bob'')"
       "user_password user' = spread (user_password ?u) None"
       "user_email user' = spread (user_email ?u) (Some None)"
       "user_phone user' = spread (user_phone ?u) None"
    by fastforce
  from 3 have "user_id user' = 1 \<and> user_username user' = ''bob'' \<and>
      user_password user' = ''password'' \<and> user_email user' = None \<and>
      user_phone user' = Some ''+1 (555) 123-4567''"
    by (simp add: spread_def)
  with 2 have "\<exists>user'. updateUser storage 1
        \<lparr>pu_username = Some ''bob'', pu_password = None, pu_email = Some None, pu_phone = None,
         pu_fullName = None, pu_avatarColor = None\<rparr> =
        (Some user', storage\<lparr>users := map_set (users storage) 1 user'\<rparr>) \<and>
      user_id user' = 1 \<and> user_username user' = ''bob'' \<and> user_password user' = ''password'' \<and>
      user_email user' = None \<and> user_phone user' = Some ''+1 (555) 123-4567''"
    by blast
  with absent present 1 show ?thesis by simp
qed

subsection \<open>Every reachable store is well formed\<close>

lemma keys_match_filter: "keys_match f m \<Longrightarrow> keys_match f (filter P m)"
  by (simp add: keys_match_def)

lemma distinct_keys_filter: "distinct (map_keys m) \<Longrightarrow> distinct (map_keys (filter P m))"
  by (simp add: map_keys_def distinct_map_filter)

lemma set_keys_filter: "k \<in> set (map_keys (filter P m)) \<Longrightarrow> k \<in> set (map_keys m)"
  by (auto simp: map_keys_def)

lemma distinct_values_filter:
  "distinct (map f (map_values m)) \<Longrightarrow> distinct (map f (map_values (filter P m)))"
  by (simp add: map_values_def distinct_map_filter)

lemma set_values_filter:
  "v \<in> set (map_values (filter P m)) \<Longrightarrow> v \<in> set (map_values m)"
  by (auto simp: map_values_def)

lemma set_values_map_set:
  "v \<in> set (map_values (map_set m k x)) \<Longrightarrow> v = x \<or> v \<in> set (map_values m)"
  using set_map_set_subset [of m k x] by (auto simp: map_values_def)

lemma key_not_deleted: "k \<in> set (map_keys m) \<Longrightarrow> k \<noteq> i \<Longrightarrow> k \<in> set (map_keys (filter (\<lambda>p. fst p \<noteq> i) m))"
  by (auto simp: map_keys_def)

lemma array_find_SomeD: "array_find P xs = Some x \<Longrightarrow> x \<in> set xs \<and> P x"
  by (auto simp: array_find_def find_Some_iff)

lemma array_find_None_iff: "array_find P xs = None \<longleftrightarrow> (\<forall>x\<in>set xs. \<not> P x)"
  by (auto simp: array_find_def find_None_iff)

lemma value_entry: "keys_match f m \<Longrightarrow> v \<in> set (map_values m) \<Longrightarrow> (f v, v) \<in> set m"
  by (auto simp: keys_match_def map_values_def)

lemma store_inv_storage: "store_inv storage"
  by (simp add: storage_eval store_inv_def keys_match_def map_keys_def map_values_def)

lemma store_inv_createUser: "store_inv s \<Longrightarrow> store_inv (snd (createUser s u))"
  unfolding store_inv_def createUser_def Let_def
  by (auto simp: distinct_map_set keys_match_map_set set_keys_map_set)

lemma store_inv_createCategory: "store_inv s \<Longrightarrow> store_inv (snd (createCategory s c))"
  unfolding store_inv_def createCategory_def Let_def
  by (auto simp: distinct_map_set keys_match_map_set set_keys_map_set)

lemma store_inv_createPlaylist: "store_inv s \<Longrightarrow> store_inv (snd (createPlaylist s p))"
  unfolding store_inv_def createPlaylist_def Let_def
  by (auto simp: distinct_map_set keys_match_map_set set_keys_map_set)

lemma store_inv_createTrack: "store_inv s \<Longrightarrow> store_inv (snd (createTrack s now t))"
  unfolding store_inv_def createTrack_def Let_def
  by (auto simp: distinct_map_set keys_match_map_set set_keys_map_set)

lemma map_set_present:
  assumes "map_get m i = Some v" and "f v' = f v" and "distinct (map_keys m)" and "keys_match f m"
  shows "distinct (map_keys (map_set m i v'))" and "keys_match f (map_set m i v')"
    and "map_keys (map_set m i v') = map_keys m"
proof -
  from assms(1) have i: "i \<in> set (map_keys m)" by (rule map_get_Some_key)
  from assms(1) have "(i, v) \<in> set m" by (rule map_get_SomeD)
  with assms(4) have "f v = i" by (auto simp: keys_match_def)
  with assms(2) have "f v' = i" by simp
  with assms(4) show "keys_match f (map_set m i v')" by (rule keys_match_map_set)
  from assms(3) show "distinct (map_keys (map_set m i v'))" by (rule distinct_map_set)
  from i show "map_keys (map_set m i v') = map_keys m" by (rule map_keys_map_set_old)
qed

lemma store_inv_updateUser: "store_inv s \<Longrightarrow> store_inv (snd (updateUser s i u))"
proof (cases "map_get (users s) i")
  case None
  assume "store_inv s"
  with None show ?thesis by (simp add: updateUser_def)
next
  case (Some user)
  assume inv: "store_inv s"
  define user' where "user' = user
                 \<lparr>user_username := spread (user_username user) (pu_username u),
                  user_password := spread (user_password user) (pu_password u),
                  user_email := spread (user_email user) (pu_email u),
                  user_phone := spread (user_phone user) (pu_phone u),
                  user_fullName := spread (user_fullName user) (pu_fullName u),
                  user_avatarColor := spread (user_avatarColor user) (pu_avatarColor u)\<rparr>"
  have eq: "snd (updateUser s i u) = s\<lparr>users := map_set (users s) i user'\<rparr>"
    using Some by (simp add: updateUser_def user'_def Let_def)
  have id: "user_id user' = user_id user" by (simp add: user'_def)
  from inv have "distinct (map_keys (users s))" "keys_match user_id (users s)"
    by (simp_all add: store_inv_def)
  note map_set_present [OF Some id this]
  with inv show ?thesis unfolding eq store_inv_def by simp
qed

lemma store_inv_updateCategory: "store_inv s \<Longrightarrow> store_inv (snd (updateCategory s i u))"
proof (cases "map_get (categories s) i")
  case None
  assume "store_inv s"
  with None show ?thesis by (simp add: updateCategory_def)
next
  case (Some c)
  assume inv: "store_inv s"
  define c' where "c' = c
                 \<lparr>category_name := spread (category_name c) (pc_name u),
                  category_icon := spread (category_icon c) (pc_icon u),
                  category_color := spread (category_color c) (pc_color u),
                  category_userId := spread (category_userId c) (pc_userId u)\<rparr>"
  have eq: "snd (updateCategory s i u) = s\<lparr>categories := map_set (categories s) i c'\<rparr>"
    using Some by (simp add: updateCategory_def c'_def Let_def)
  have id: "category_id c' = category_id c" by (simp add: c'_def)
  from inv have "distinct (map_keys (categories s))" "keys_match category_id (categories s)"
    by (simp_all add: store_inv_def)
  note map_set_present [OF Some id this]
  with inv show ?thesis unfolding eq store_inv_def by simp
qed

lemma store_inv_updatePlaylist: "store_inv s \<Longrightarrow> store_inv (snd (updatePlaylist s i u))"
proof (cases "map_get (playlists s) i")
  case None
  assume "store_inv s"
  with None show ?thesis by (simp add: updatePlaylist_def)
next
  case (Some p)
  assume inv: "store_inv s"
  define p' where "p' = p
                 \<lparr>playlist_name := spread (playlist_name p) (pp_name u),
                  playlist_userId := spread (playlist_userId p) (pp_userId u),
                  playlist_color := spread (playlist_color p) (pp_color u),
                  playlist_icon := spread (playlist_icon p) (pp_icon u)\<rparr>"
  have eq: "snd (updatePlaylist s i u) = s\<lparr>playlists := map_set (playlists s) i p'\<rparr>"
    using Some by (simp add: updatePlaylist_def p'_def Let_def)
  have id: "playlist_id p' = playlist_id p" by (simp add: p'_def)
  from inv have "distinct (map_keys (playlists s))" "keys_match playlist_id (playlists s)"
    by (simp_all add: store_inv_def)
  note map_set_present [OF Some id this]
  with inv show ?thesis unfolding eq store_inv_def by simp
qed

lemma store_inv_updateTrack: "store_inv s \<Longrightarrow> store_inv (snd (updateTrack s i u))"
proof (cases "map_get (tracks s) i")
  case None
  assume "store_inv s"
  with None show ?thesis by (simp add: updateTrack_def)
next
  case (Some t)
  assume inv: "store_inv s"
  define t' where "t' = t
                 \<lparr>track_name := spread (track_name t) (ptr_name u),
                  track_userId := spread (track_userId t) (ptr_userId u),
                  track_categoryId := spread (track_categoryId t) (ptr_categoryId u),
                  track_duration := spread (track_duration t) (ptr_duration u),
                  track_filePath := spread (track_filePath t) (ptr_filePath u)\<rparr>"
  have eq: "snd (updateTrack s i u) = s\<lparr>tracks := map_set (tracks s) i t'\<rparr>"
    using Some by (simp add: updateTrack_def t'_def Let_def)
  have id: "track_id t' = track_id t" by (simp add: t'_def)
  from inv have "distinct (map_keys (tracks s))" "keys_match track_id (tracks s)"
    by (simp_all add: store_inv_def)
  note map_set_present [OF Some id this]
  with inv show ?thesis unfolding eq store_inv_def by simp
qed
lemma set_values_filter_snd:
  "v \<in> set (map_values (filter (\<lambda>p. Q (snd p)) m)) \<longleftrightarrow> v \<in> set (map_values m) \<and> Q v"
  by (auto simp: map_values_def)

lemma set_values_not_playlist:
  "v \<in> set (map_values (filter (\<lambda>p. pt_playlistId (snd p) \<noteq> i) m)) \<longleftrightarrow>
   v \<in> set (map_values m) \<and> pt_playlistId v \<noteq> i"
  by (rule set_values_filter_snd)

lemma set_values_not_track:
  "v \<in> set (map_values (filter (\<lambda>p. pt_trackId (snd p) \<noteq> i) m)) \<longleftrightarrow>
   v \<in> set (map_values m) \<and> pt_trackId v \<noteq> i"
  by (rule set_values_filter_snd)

lemma set_keys_delete:
  "k \<in> set (map_keys (filter (\<lambda>p. fst p \<noteq> i) m)) \<longleftrightarrow> k \<in> set (map_keys m) \<and> k \<noteq> i"
  by (auto simp: map_keys_def)

lemma deleteCategory_eq:
  "deleteCategory s i =
     (i \<in> set (map_keys (categories s)),
      s\<lparr>categories := filter (\<lambda>p. fst p \<noteq> i) (categories s)\<rparr>)"
  by (simp add: deleteCategory_def map_delete_def)

lemma deletePlaylist_eq:
  assumes "store_inv s"
  shows "deletePlaylist s i =
     (i \<in> set (map_keys (playlists s)),
      s\<lparr>playlistTracks := filter (\<lambda>p. pt_playlistId (snd p) \<noteq> i) (playlistTracks s),
        playlists := filter (\<lambda>p. fst p \<noteq> i) (playlists s)\<rparr>)"
proof -
  from assms have "distinct (map_keys (playlistTracks s))" "keys_match pt_id (playlistTracks s)"
    by (simp_all add: store_inv_def)
  from delete_links_cascade [OF this, of "\<lambda>pt. pt_playlistId pt = i"]
  show ?thesis by (simp add: deletePlaylist_def map_delete_def)
qed

lemma deleteTrack_eq:
  assumes "store_inv s"
  shows "deleteTrack s i =
     (i \<in> set (map_keys (tracks s)),
      s\<lparr>playlistTracks := filter (\<lambda>p. pt_trackId (snd p) \<noteq> i) (playlistTracks s),
        tracks := filter (\<lambda>p. fst p \<noteq> i) (tracks s)\<rparr>)"
proof -
  from assms have "distinct (map_keys (playlistTracks s))" "keys_match pt_id (playlistTracks s)"
    by (simp_all add: store_inv_def)
  from delete_links_cascade [OF this, of "\<lambda>pt. pt_trackId pt = i"]
  show ?thesis by (simp add: deleteTrack_def map_delete_def)
qed

lemma store_inv_deleteCategory: "store_inv s \<Longrightarrow> store_inv (snd (deleteCategory s i))"
  unfolding deleteCategory_eq store_inv_def
  by (simp add: keys_match_filter distinct_keys_filter set_keys_delete)

lemma store_inv_deletePlaylist:
  assumes "store_inv s" shows "store_inv (snd (deletePlaylist s i))"
  using assms unfolding deletePlaylist_eq [OF assms] store_inv_def
  by (auto simp: keys_match_filter distinct_keys_filter distinct_values_filter set_keys_delete
      set_values_not_playlist set_values_not_track dest: set_keys_filter)

lemma store_inv_deleteTrack:
  assumes "store_inv s" shows "store_inv (snd (deleteTrack s i))"
  using assms unfolding deleteTrack_eq [OF assms] store_inv_def
  by (auto simp: keys_match_filter distinct_keys_filter distinct_values_filter set_keys_delete
      set_values_not_playlist set_values_not_track dest: set_keys_filter)
lemma addTrackToPlaylist_new:
  assumes inv: "store_inv s"
    and p: "map_get (playlists s) (ipt_playlistId l) = Some playlist"
    and t: "map_get (tracks s) (ipt_trackId l) = Some track"
    and n: "array_find (\<lambda>pt. pt_playlistId pt = ipt_playlistId l \<and> pt_trackId pt = ipt_trackId l)
              (map_values (playlistTracks s)) = None"
  shows "addTrackToPlaylist s l =
     (Inr \<lparr>pt_id = playlistTrackId s, pt_playlistId = ipt_playlistId l,
           pt_trackId = ipt_trackId l, pt_position = ipt_position l\<rparr>,
      s\<lparr>playlistTracks := playlistTracks s @
            [(playlistTrackId s,
              \<lparr>pt_id = playlistTrackId s, pt_playlistId = ipt_playlistId l,
               pt_trackId = ipt_trackId l, pt_position = ipt_position l\<rparr>)],
        playlistTrackId := playlistTrackId s + 1\<rparr>)"
proof -
  from inv have "\<forall>k\<in>set (map_keys (playlistTracks s)). k < playlistTrackId s"
    by (simp add: store_inv_def)
  then have "playlistTrackId s \<notin> set (map_keys (playlistTracks s))" by auto
  then have "map_set (playlistTracks s) (playlistTrackId s) v =
      playlistTracks s @ [(playlistTrackId s, v)]" for v
    by (rule map_set_fresh)
  with p t n show ?thesis by (simp add: addTrackToPlaylist_def Let_def)
qed

lemma store_inv_addTrackToPlaylist:
  assumes inv: "store_inv s" shows "store_inv (snd (addTrackToPlaylist s l))"
proof (cases "map_get (playlists s) (ipt_playlistId l)")
  case None
  with inv show ?thesis by (simp add: addTrackToPlaylist_def)
next
  case p: (Some playlist)
  show ?thesis
  proof (cases "map_get (tracks s) (ipt_trackId l)")
    case None
    with inv p show ?thesis by (simp add: addTrackToPlaylist_def)
  next
    case t: (Some track)
    show ?thesis
    proof (cases "array_find (\<lambda>pt. pt_playlistId pt = ipt_playlistId l \<and>
        pt_trackId pt = ipt_trackId l) (map_values (playlistTracks s))")
      case (Some existing)
      with inv p t show ?thesis by (simp add: addTrackToPlaylist_def)
    next
      case None
      from None have fresh: "(ipt_playlistId l, ipt_trackId l) \<notin>
          set (map (\<lambda>pt. (pt_playlistId pt, pt_trackId pt)) (map_values (playlistTracks s)))"
        by (auto simp: array_find_None_iff)
      from p have pk: "ipt_playlistId l \<in> set (map_keys (playlists s))"
        by (rule map_get_Some_key)
      from t have tk: "ipt_trackId l \<in> set (map_keys (tracks s))"
        by (rule map_get_Some_key)
      from inv have b: "\<forall>k\<in>set (map_keys (playlistTracks s)). k < playlistTrackId s"
        by (simp add: store_inv_def)
      then have nk: "playlistTrackId s \<notin> set (map_keys (playlistTracks s))" by auto
      have km: "keys_match pt_id (playlistTracks s @ [(playlistTrackId s,
              \<lparr>pt_id = playlistTrackId s, pt_playlistId = ipt_playlistId l,
               pt_trackId = ipt_trackId l, pt_position = ipt_position l\<rparr>)])"
        using inv by (simp add: store_inv_def keys_match_def)
      have bd: "\<forall>k\<in>set (map_keys (playlistTracks s)). k < playlistTrackId s + 1"
        using b by auto
      show ?thesis
        using inv fresh pk tk nk km bd
        unfolding addTrackToPlaylist_new [OF inv p t None] store_inv_def
        by (simp add: map_keys_def map_values_def)
    qed
  qed
qed

lemma removeTrackFromPlaylist_eq:
  "snd (removeTrackFromPlaylist s p t) = s \<or>
   (\<exists>i. snd (removeTrackFromPlaylist s p t) =
      s\<lparr>playlistTracks := filter (\<lambda>e. fst e \<noteq> i) (playlistTracks s)\<rparr>)"
  by (auto simp: removeTrackFromPlaylist_def map_delete_def split: option.splits)

lemma store_inv_delete_link:
  "store_inv s \<Longrightarrow> store_inv (s\<lparr>playlistTracks := filter P (playlistTracks s)\<rparr>)"
  unfolding store_inv_def
  by (auto simp: keys_match_filter distinct_keys_filter distinct_values_filter
      dest: set_keys_filter set_values_filter)

lemma store_inv_removeTrackFromPlaylist:
  "store_inv s \<Longrightarrow> store_inv (snd (removeTrackFromPlaylist s p t))"
  using removeTrackFromPlaylist_eq [of s p t] by (auto simp: store_inv_delete_link)

lemma store_inv_updateTrackPosition:
  assumes inv: "store_inv s" shows "store_inv (snd (updateTrackPosition s p t n))"
proof (cases "array_find (\<lambda>pt. pt_playlistId pt = p \<and> pt_trackId pt = t)
    (map_values (playlistTracks s))")
  case None
  with inv show ?thesis by (simp add: updateTrackPosition_def)
next
  case (Some pt)
  let ?pt' = "pt\<lparr>pt_position := n\<rparr>"
  have eq: "snd (updateTrackPosition s p t n) =
      s\<lparr>playlistTracks := map_set (playlistTracks s) (pt_id pt) ?pt'\<rparr>"
    using Some by (simp add: updateTrackPosition_def)
  from inv have d: "distinct (map_keys (playlistTracks s))"
    and k: "keys_match pt_id (playlistTracks s)"
    by (simp_all add: store_inv_def)
  from Some have "pt \<in> set (map_values (playlistTracks s))"
    by (auto dest: array_find_SomeD)
  with k have "(pt_id pt, pt) \<in> set (playlistTracks s)" by (rule value_entry)
  with d have g: "map_get (playlistTracks s) (pt_id pt) = Some pt" by (rule map_get_distinct)
  have id: "pt_id ?pt' = pt_id pt" by simp
  note ms = map_set_present [OF g id d k]
  have pair: "map (\<lambda>pt. (pt_playlistId pt, pt_trackId pt))
      (map_values (map_set (playlistTracks s) (pt_id pt) ?pt')) =
      map (\<lambda>pt. (pt_playlistId pt, pt_trackId pt)) (map_values (playlistTracks s))"
    by (rule map_set_same_image [OF g]) simp
  have refs: "\<forall>x\<in>set (map_values (map_set (playlistTracks s) (pt_id pt) ?pt')).
        pt_playlistId x \<in> set (map_keys (playlists s)) \<and>
        pt_trackId x \<in> set (map_keys (tracks s))"
  proof
    fix x assume "x \<in> set (map_values (map_set (playlistTracks s) (pt_id pt) ?pt'))"
    then have "x = ?pt' \<or> x \<in> set (map_values (playlistTracks s))"
      by (rule set_values_map_set)
    moreover from inv have "\<forall>pt\<in>set (map_values (playlistTracks s)).
        pt_playlistId pt \<in> set (map_keys (playlists s)) \<and>
        pt_trackId pt \<in> set (map_keys (tracks s))"
      by (simp add: store_inv_def)
    moreover note \<open>pt \<in> set (map_values (playlistTracks s))\<close>
    ultimately show "pt_playlistId x \<in> set (map_keys (playlists s)) \<and>
        pt_trackId x \<in> set (map_keys (tracks s))"
      by auto
  qed
  from inv ms pair refs show ?thesis unfolding eq store_inv_def by simp
qed

lemma reachable_store_inv: "reachable s \<Longrightarrow> store_inv s"
proof (induction rule: reachable.induct)
  case reachable_storage
  show ?case by (rule store_inv_storage)
next
  case (reachable_exec s call)
  then show ?case
    by (cases call)
      (simp_all add: store_inv_createUser store_inv_updateUser store_inv_createCategory
        store_inv_updateCategory store_inv_deleteCategory store_inv_createPlaylist
        store_inv_updatePlaylist store_inv_deletePlaylist store_inv_createTrack
        store_inv_updateTrack store_inv_deleteTrack store_inv_addTrackToPlaylist
        store_inv_removeTrackFromPlaylist store_inv_updateTrackPosition)
qed

subsection \<open>The example run\<close>

lemma reachable_demo_store: "reachable demo_store"
  unfolding demo_store_def by (intro reachable_exec reachable_storage)

lemma demo_store_tracks:
  "tracks demo_store =
     [(1, \<lparr>track_id = 1, track_name = ''memo'', track_userId = 1,
            track_categoryId = Some (Num 1), track_duration = Num 42,
            track_filePath = ''uploads/1-1.webm'', track_createdAt = Some 1000\<rparr>)]"
  by (simp add: demo_store_def demo_track_def storage_eval createTrack_def
      addTrackToPlaylist_def map_get_def array_find_def map_values_def Let_def)

lemma demo_store_playlistTracks:
  "playlistTracks demo_store =
     [(1, \<lparr>pt_id = 1, pt_playlistId = 1, pt_trackId = 1, pt_position = 0\<rparr>)]"
  by (simp add: demo_store_def demo_track_def storage_eval createTrack_def
      addTrackToPlaylist_def map_get_def array_find_def map_values_def Let_def)

lemma demo_store_playlists: "playlists demo_store = playlists storage"
  by (simp add: demo_store_def demo_track_def storage_eval createTrack_def
      addTrackToPlaylist_def map_get_def array_find_def map_values_def Let_def)

subsection \<open>Cascading deletes\<close>

lemma getPlaylistTracks_no_links:
  "\<forall>pt\<in>set (map_values (playlistTracks s)). pt_playlistId pt \<noteq> p \<Longrightarrow>
   getPlaylistTracks s p = Inr []"
  by (simp add: getPlaylistTracks_def filter_False)

text \<open>
  C3. In a reachable store, \<open>deletePlaylist(P)\<close> leaves exactly the links of the other
  playlists and no playlist \<open>P\<close>, in the one store it returns, so that \<open>getPlaylistTracks(P)\<close>
  is then the empty array; \<open>deleteTrack(T)\<close> leaves exactly the links of the other tracks
  and no track \<open>T\<close>.
\<close>

theorem delete_cascades_to_links:
  assumes "reachable s"
  shows "playlistTracks (snd (deletePlaylist s P)) =
           filter (\<lambda>e. pt_playlistId (snd e) \<noteq> P) (playlistTracks s) \<and>
         (\<forall>pt\<in>set (map_values (playlistTracks (snd (deletePlaylist s P)))).
            pt_playlistId pt \<noteq> P) \<and>
         getPlaylistById (snd (deletePlaylist s P)) P = None \<and>
         getPlaylistTracks (snd (deletePlaylist s P)) P = Inr [] \<and>
         playlistTracks (snd (deleteTrack s T)) =
           filter (\<lambda>e. pt_trackId (snd e) \<noteq> T) (playlistTracks s) \<and>
         (\<forall>pt\<in>set (map_values (playlistTracks (snd (deleteTrack s T)))).
            pt_trackId pt \<noteq> T) \<and>
         getTrackById (snd (deleteTrack s T)) T = None"
proof -
  from assms have inv: "store_inv s" by (rule reachable_store_inv)
  have p: "\<forall>pt\<in>set (map_values (playlistTracks (snd (deletePlaylist s P)))).
            pt_playlistId pt \<noteq> P"
    by (simp add: deletePlaylist_eq [OF inv] set_values_not_playlist)
  have t: "\<forall>pt\<in>set (map_values (playlistTracks (snd (deleteTrack s T)))). pt_trackId pt \<noteq> T"
    by (simp add: deleteTrack_eq [OF inv] set_values_not_track)
  have gp: "getPlaylistById (snd (deletePlaylist s P)) P = None"
    by (simp add: deletePlaylist_eq [OF inv] getPlaylistById_def map_get_None_iff
        set_keys_delete)
  have gt: "getTrackById (snd (deleteTrack s T)) T = None"
    by (simp add: deleteTrack_eq [OF inv] getTrackById_def map_get_None_iff set_keys_delete)
  from p have gl: "getPlaylistTracks (snd (deletePlaylist s P)) P = Inr []"
    by (rule getPlaylistTracks_no_links)
  have ep: "playlistTracks (snd (deletePlaylist s P)) =
      filter (\<lambda>e. pt_playlistId (snd e) \<noteq> P) (playlistTracks s)"
    by (simp add: deletePlaylist_eq [OF inv])
  have et: "playlistTracks (snd (deleteTrack s T)) =
      filter (\<lambda>e. pt_trackId (snd e) \<noteq> T) (playlistTracks s)"
    by (simp add: deleteTrack_eq [OF inv])
  from ep p gp gl et t gt show ?thesis by (intro conjI)
qed

theorem delete_cascades_to_links_witness:
  "reachable demo_store \<and>
   getPlaylistTracks demo_store 1 \<noteq> Inr [] \<and>
   playlistTracks (snd (deletePlaylist demo_store 1)) = [] \<and>
   getPlaylistTracks (snd (deletePlaylist demo_store 1)) 1 = Inr [] \<and>
   playlistTracks (snd (deleteTrack demo_store 1)) = [] \<and>
   getTrackById (snd (deleteTrack demo_store 1)) 1 = None"
proof -
  have "getPlaylistTracks demo_store 1 \<noteq> Inr []"
    by (simp add: getPlaylistTracks_def demo_store_playlistTracks demo_store_tracks
        map_values_def map_get_def)
  moreover have "filter (\<lambda>e. pt_playlistId (snd e) \<noteq> 1) (playlistTracks demo_store) = []"
    "filter (\<lambda>e. pt_trackId (snd e) \<noteq> 1) (playlistTracks demo_store) = []"
    by (simp_all add: demo_store_playlistTracks)
  moreover note delete_cascades_to_links [OF reachable_demo_store, of 1 1] reachable_demo_store
  ultimately show ?thesis by metis
qed

subsection \<open>The store reports absence\<close>

text \<open>When every link has its track, \<open>getPlaylistTracks\<close> does not throw.\<close>

lemma lookup_tracks_total:
  "\<forall>pt\<in>set pts. pt_trackId pt \<in> set (map_keys tm) \<Longrightarrow>
   lookup_tracks tm pts =
     Inr (map (\<lambda>pt. \<lparr>ta_track = the (map_get tm (pt_trackId pt)),
                      ta_position = pt_position pt\<rparr>) pts)"
proof (induction pts)
  case Nil
  show ?case by simp
next
  case (Cons pt pts)
  from Cons.prems have "map_get tm (pt_trackId pt) \<noteq> None"
    by (simp add: map_get_None_iff)
  then obtain track where "map_get tm (pt_trackId pt) = Some track" by auto
  with Cons show ?case by simp
qed

lemma getPlaylistTracks_total:
  assumes "store_inv s"
  shows "getPlaylistTracks s p =
     Inr (sort_key ta_position
       (map (\<lambda>pt. \<lparr>ta_track = the (map_get (tracks s) (pt_trackId pt)),
                    ta_position = pt_position pt\<rparr>)
          (filter (\<lambda>pt. pt_playlistId pt = p) (map_values (playlistTracks s)))))"
proof -
  from assms have "\<forall>pt\<in>set (filter (\<lambda>pt. pt_playlistId pt = p) (map_values (playlistTracks s))).
      pt_trackId pt \<in> set (map_keys (tracks s))"
    by (simp add: store_inv_def)
  from lookup_tracks_total [OF this] show ?thesis
    by (simp add: getPlaylistTracks_def)
qed

lemma no_links_of_missing_playlist:
  assumes "store_inv s" and "p \<notin> set (map_keys (playlists s))"
  shows "\<forall>pt\<in>set (map_values (playlistTracks s)). pt_playlistId pt \<noteq> p"
  using assms by (auto simp: store_inv_def)

lemma no_links_of_missing_track:
  assumes "store_inv s" and "t \<notin> set (map_keys (tracks s))"
  shows "\<forall>pt\<in>set (map_values (playlistTracks s)). pt_trackId pt \<noteq> t"
  using assms by (auto simp: store_inv_def)

lemma filter_links_id:
  "\<forall>pt\<in>set (map_values m). Q pt \<Longrightarrow> filter (\<lambda>e. Q (snd e)) m = m"
  by (simp add: map_values_def filter_id_conv)

lemma filter_keys_id: "i \<notin> set (map_keys m) \<Longrightarrow> filter (\<lambda>e. fst e \<noteq> i) m = m"
  by (auto simp: map_keys_def filter_id_conv)

lemma deletePlaylist_absent:
  assumes inv: "store_inv s" and a: "i \<notin> set (map_keys (playlists s))"
  shows "deletePlaylist s i = (False, s)"
proof -
  from no_links_of_missing_playlist [OF inv a]
  have "filter (\<lambda>e. pt_playlistId (snd e) \<noteq> i) (playlistTracks s) = playlistTracks s"
    by (rule filter_links_id)
  moreover from a have "filter (\<lambda>e. fst e \<noteq> i) (playlists s) = playlists s"
    by (rule filter_keys_id)
  ultimately show ?thesis using a by (simp add: deletePlaylist_eq [OF inv])
qed

lemma deleteTrack_absent:
  assumes inv: "store_inv s" and a: "i \<notin> set (map_keys (tracks s))"
  shows "deleteTrack s i = (False, s)"
proof -
  from no_links_of_missing_track [OF inv a]
  have "filter (\<lambda>e. pt_trackId (snd e) \<noteq> i) (playlistTracks s) = playlistTracks s"
    by (rule filter_links_id)
  moreover from a have "filter (\<lambda>e. fst e \<noteq> i) (tracks s) = tracks s"
    by (rule filter_keys_id)
  ultimately show ?thesis using a by (simp add: deleteTrack_eq [OF inv])
qed

lemma deleteCategory_absent:
  "i \<notin> set (map_keys (categories s)) \<Longrightarrow> deleteCategory s i = (False, s)"
  by (simp add: deleteCategory_eq filter_keys_id)

lemma link_calls_absent:
  assumes "\<forall>pt\<in>set (map_values (playlistTracks s)). \<not> (pt_playlistId pt = p \<and> pt_trackId pt = t)"
  shows "removeTrackFromPlaylist s p t = (False, s)" and "updateTrackPosition s p t n = (False, s)"
proof -
  from assms have "array_find (\<lambda>pt. pt_playlistId pt = p \<and> pt_trackId pt = t)
      (map_values (playlistTracks s)) = None"
    by (simp add: array_find_None_iff)
  then show "removeTrackFromPlaylist s p t = (False, s)"
    and "updateTrackPosition s p t n = (False, s)"
    by (simp_all add: removeTrackFromPlaylist_def updateTrackPosition_def)
qed

text \<open>
  C8. The reads, updates and deletes of the store return an option, a boolean or an array,
  so they have no way to throw; the one \<open>throw\<close> among them is in \<open>getPlaylistTracks\<close>.
  In a reachable store \<open>getPlaylistTracks\<close> returns an array for every playlist id, the
  empty one for an id the store does not hold; and on an id (or a pair) that the store does
  not hold, a read returns \<open>undefined\<close>, an update \<open>undefined\<close> and a delete \<open>false\<close>,
  each leaving the store as it was.
\<close>

theorem store_never_raises_on_missing_id:
  assumes "reachable s"
  shows "(\<exists>r. getPlaylistTracks s i = Inr r) \<and>
         (getPlaylistById s i = None \<longrightarrow> getPlaylistTracks s i = Inr []) \<and>
         (getUser s i = None \<longrightarrow> updateUser s i uu = (None, s)) \<and>
         (getCategoryById s i = None \<longrightarrow>
            updateCategory s i uc = (None, s) \<and> deleteCategory s i = (False, s)) \<and>
         (getPlaylistById s i = None \<longrightarrow>
            updatePlaylist s i up = (None, s) \<and> deletePlaylist s i = (False, s)) \<and>
         (getTrackById s i = None \<longrightarrow>
            updateTrack s i ut = (None, s) \<and> deleteTrack s i = (False, s)) \<and>
         ((\<forall>pt\<in>set (map_values (playlistTracks s)).
              \<not> (pt_playlistId pt = i \<and> pt_trackId pt = t)) \<longrightarrow>
            removeTrackFromPlaylist s i t = (False, s) \<and>
            updateTrackPosition s i t n = (False, s))"
proof -
  from assms have inv: "store_inv s" by (rule reachable_store_inv)
  have 1: "\<exists>r. getPlaylistTracks s i = Inr r"
    by (simp add: getPlaylistTracks_total [OF inv])
  have 2: "getPlaylistById s i = None \<longrightarrow> getPlaylistTracks s i = Inr []"
    using no_links_of_missing_playlist [OF inv, of i]
    by (simp add: getPlaylistById_def map_get_None_iff getPlaylistTracks_no_links)
  have 3: "getUser s i = None \<longrightarrow> updateUser s i uu = (None, s)"
    by (simp add: updateUser_absent)
  have 4: "getCategoryById s i = None \<longrightarrow>
            updateCategory s i uc = (None, s) \<and> deleteCategory s i = (False, s)"
    by (simp add: updateCategory_absent)
       (simp add: getCategoryById_def map_get_None_iff deleteCategory_absent)
  have 5: "getPlaylistById s i = None \<longrightarrow>
            updatePlaylist s i up = (None, s) \<and> deletePlaylist s i = (False, s)"
    by (simp add: updatePlaylist_absent)
       (simp add: getPlaylistById_def map_get_None_iff deletePlaylist_absent [OF inv])
  have 6: "getTrackById s i = None \<longrightarrow>
            updateTrack s i ut = (None, s) \<and> deleteTrack s i = (False, s)"
    by (simp add: updateTrack_absent)
       (simp add: getTrackById_def map_get_None_iff deleteTrack_absent [OF inv])
  have 7: "(\<forall>pt\<in>set (map_values (playlistTracks s)).
              \<not> (pt_playlistId pt = i \<and> pt_trackId pt = t)) \<longrightarrow>
            removeTrackFromPlaylist s i t = (False, s) \<and>
            updateTrackPosition s i t n = (False, s)"
    using link_calls_absent [of s i t] by blast
  from 1 2 3 4 5 6 7 show ?thesis by (intro conjI)
qed

theorem store_never_raises_on_missing_id_witness:
  "reachable demo_store \<and>
   getPlaylistById demo_store 9 = None \<and> getPlaylistTracks demo_store 9 = Inr [] \<and>
   deletePlaylist demo_store 9 = (False, demo_store) \<and>
   getTrackById demo_store 9 = None \<and> deleteTrack demo_store 9 = (False, demo_store) \<and>
   removeTrackFromPlaylist demo_store 9 9 = (False, demo_store) \<and>
   updateTrackPosition demo_store 9 9 3 = (False, demo_store)"
proof -
  have p: "getPlaylistById demo_store 9 = None"
    by (simp add: getPlaylistById_def demo_store_playlists storage_eval map_get_def)
  have t: "getTrackById demo_store 9 = None"
    by (simp add: getTrackById_def demo_store_tracks map_get_def)
  have l: "\<forall>pt\<in>set (map_values (playlistTracks demo_store)).
      \<not> (pt_playlistId pt = 9 \<and> pt_trackId pt = 9)"
    by (simp add: demo_store_playlistTracks map_values_def)
  from store_never_raises_on_missing_id [OF reachable_demo_store, of 9 _ _ _ _ 9 3] p t l
    reachable_demo_store
  show ?thesis by blast
qed

subsection \<open>Adding a track that is already in the playlist\<close>

lemma find_first_unique:
  "distinct (map f xs) \<Longrightarrow> x \<in> set xs \<Longrightarrow> array_find (\<lambda>y. f y = f x) xs = Some x"
  unfolding array_find_def
  by (induction xs) (auto simp: image_iff)

lemma filter_unique:
  "distinct (map f xs) \<Longrightarrow> x \<in> set xs \<Longrightarrow> filter (\<lambda>y. f y = f x) xs = [x]"
  by (induction xs) (auto simp: image_iff filter_empty_conv)

lemma track_of_link:
  assumes inv: "store_inv s" and pt: "pt \<in> set (map_values (playlistTracks s))"
  shows "\<exists>track. map_get (tracks s) (pt_trackId pt) = Some track \<and>
           track_id track = pt_trackId pt"
proof -
  from inv pt have "pt_trackId pt \<in> set (map_keys (tracks s))"
    by (simp add: store_inv_def)
  then have "map_get (tracks s) (pt_trackId pt) \<noteq> None" by (simp add: map_get_None_iff)
  then obtain track where g: "map_get (tracks s) (pt_trackId pt) = Some track" by auto
  then have "(pt_trackId pt, track) \<in> set (tracks s)" by (rule map_get_SomeD)
  moreover from inv have "keys_match track_id (tracks s)" by (simp add: store_inv_def)
  ultimately have "track_id track = pt_trackId pt" by (auto simp: keys_match_def)
  with g show ?thesis by simp
qed

lemma playlist_of_link:
  assumes inv: "store_inv s" and pt: "pt \<in> set (map_values (playlistTracks s))"
  shows "\<exists>playlist. map_get (playlists s) (pt_playlistId pt) = Some playlist"
proof -
  from inv pt have "pt_playlistId pt \<in> set (map_keys (playlists s))"
    by (simp add: store_inv_def)
  then have "map_get (playlists s) (pt_playlistId pt) \<noteq> None" by (simp add: map_get_None_iff)
  then show ?thesis by auto
qed

lemma addTrackToPlaylist_existing:
  assumes inv: "store_inv s" and pt: "pt \<in> set (map_values (playlistTracks s))"
  shows "addTrackToPlaylist s
           \<lparr>ipt_playlistId = pt_playlistId pt, ipt_trackId = pt_trackId pt, ipt_position = n\<rparr> =
         (Inr pt, s)"
proof -
  from playlist_of_link [OF inv pt] obtain playlist
    where p: "map_get (playlists s) (pt_playlistId pt) = Some playlist" by auto
  from track_of_link [OF inv pt] obtain track
    where t: "map_get (tracks s) (pt_trackId pt) = Some track" by auto
  from inv have "distinct (map (\<lambda>pt. (pt_playlistId pt, pt_trackId pt))
      (map_values (playlistTracks s)))"
    by (simp add: store_inv_def)
  from find_first_unique [OF this pt]
  have "array_find (\<lambda>y. pt_playlistId y = pt_playlistId pt \<and> pt_trackId y = pt_trackId pt)
      (map_values (playlistTracks s)) = Some pt"
    by simp
  with p t show ?thesis by (simp add: addTrackToPlaylist_def)
qed

text \<open>The entries of \<open>getPlaylistTracks(P)\<close> for track \<open>T\<close> come from the links of the pair.\<close>

lemma getPlaylistTracks_entries:
  assumes inv: "store_inv s"
  shows "\<exists>r. getPlaylistTracks s p = Inr r \<and>
           filter (\<lambda>e. track_id (ta_track e) = t) r =
           sort_key ta_position
             (map (\<lambda>pt. \<lparr>ta_track = the (map_get (tracks s) (pt_trackId pt)),
                          ta_position = pt_position pt\<rparr>)
                (filter (\<lambda>pt. pt_playlistId pt = p \<and> pt_trackId pt = t)
                   (map_values (playlistTracks s))))"
proof -
  let ?links = "filter (\<lambda>pt. pt_playlistId pt = p) (map_values (playlistTracks s))"
  let ?g = "\<lambda>pt. \<lparr>ta_track = the (map_get (tracks s) (pt_trackId pt)),
                   ta_position = pt_position pt\<rparr>"
  have tid: "track_id (ta_track (?g pt)) = pt_trackId pt" if "pt \<in> set ?links" for pt
  proof -
    from that have "pt \<in> set (map_values (playlistTracks s))" by simp
    from track_of_link [OF inv this] show ?thesis by auto
  qed
  have "filter (\<lambda>e. track_id (ta_track e) = t) (sort_key ta_position (map ?g ?links)) =
      sort_key ta_position (filter (\<lambda>e. track_id (ta_track e) = t) (map ?g ?links))"
    by (rule filter_sort)
  also have "filter (\<lambda>e. track_id (ta_track e) = t) (map ?g ?links) =
      map ?g (filter (\<lambda>pt. track_id (ta_track (?g pt)) = t) ?links)"
    by (simp add: filter_map o_def)
  also have "filter (\<lambda>pt. track_id (ta_track (?g pt)) = t) ?links =
      filter (\<lambda>pt. pt_trackId pt = t) ?links"
    by (rule filter_cong [OF refl]) (simp only: tid)
  also have "\<dots> = filter (\<lambda>pt. pt_playlistId pt = p \<and> pt_trackId pt = t)
      (map_values (playlistTracks s))"
    by (simp add: conj_commute)
  finally show ?thesis by (simp add: getPlaylistTracks_total [OF inv])
qed

text \<open>
  C1. In a reachable store that holds a link of playlist \<open>P\<close> and track \<open>T\<close>,
  \<open>addTrackToPlaylist\<close> called with \<open>P\<close>, \<open>T\<close> and any position returns that link as it is
  stored and leaves the store as it was: the map of links holds one row for the pair, and
  \<open>getPlaylistTracks(P)\<close> afterwards has one entry for track \<open>T\<close>, at the stored position.
\<close>

theorem add_existing_pair_is_idempotent:
  assumes "reachable s"
    and "link \<in> set (map_values (playlistTracks s))"
    and "pt_playlistId link = P" and "pt_trackId link = T"
  shows "addTrackToPlaylist s \<lparr>ipt_playlistId = P, ipt_trackId = T, ipt_position = n\<rparr> =
           (Inr link, s) \<and>
         filter (\<lambda>pt. pt_playlistId pt = P \<and> pt_trackId pt = T)
           (map_values (playlistTracks
              (snd (addTrackToPlaylist s
                 \<lparr>ipt_playlistId = P, ipt_trackId = T, ipt_position = n\<rparr>)))) = [link] \<and>
         (\<exists>r track. getPlaylistTracks
              (snd (addTrackToPlaylist s
                 \<lparr>ipt_playlistId = P, ipt_trackId = T, ipt_position = n\<rparr>)) P = Inr r \<and>
            filter (\<lambda>e. track_id (ta_track e) = T) r =
              [\<lparr>ta_track = track, ta_position = pt_position link\<rparr>] \<and>
            getTrackById s T = Some track)"
proof -
  from assms(1) have inv: "store_inv s" by (rule reachable_store_inv)
  from addTrackToPlaylist_existing [OF inv assms(2), of n] assms(3,4)
  have add: "addTrackToPlaylist s \<lparr>ipt_playlistId = P, ipt_trackId = T, ipt_position = n\<rparr> =
      (Inr link, s)"
    by simp
  from inv have "distinct (map (\<lambda>pt. (pt_playlistId pt, pt_trackId pt))
      (map_values (playlistTracks s)))"
    by (simp add: store_inv_def)
  from filter_unique [OF this assms(2)] assms(3,4)
  have one: "filter (\<lambda>pt. pt_playlistId pt = P \<and> pt_trackId pt = T)
      (map_values (playlistTracks s)) = [link]"
    by simp
  from track_of_link [OF inv assms(2)] assms(4) obtain track
    where track: "map_get (tracks s) T = Some track" by auto
  from getPlaylistTracks_entries [OF inv, of P T] obtain r
    where r: "getPlaylistTracks s P = Inr r"
      "filter (\<lambda>e. track_id (ta_track e) = T) r =
         [\<lparr>ta_track = track, ta_position = pt_position link\<rparr>]"
    unfolding one using track assms(4) by auto
  from track have "getTrackById s T = Some track" by (simp add: getTrackById_def)
  with add one r show ?thesis by simp
qed

theorem add_existing_pair_is_idempotent_witness:
  "reachable demo_store \<and>
   \<lparr>pt_id = 1, pt_playlistId = 1, pt_trackId = 1, pt_position = 0\<rparr>
     \<in> set (map_values (playlistTracks demo_store)) \<and>
   addTrackToPlaylist demo_store \<lparr>ipt_playlistId = 1, ipt_trackId = 1, ipt_position = 7\<rparr> =
     (Inr \<lparr>pt_id = 1, pt_playlistId = 1, pt_trackId = 1, pt_position = 0\<rparr>, demo_store)"
proof -
  have m: "\<lparr>pt_id = 1, pt_playlistId = 1, pt_trackId = 1, pt_position = 0\<rparr>
     \<in> set (map_values (playlistTracks demo_store))"
    by (simp add: demo_store_playlistTracks map_values_def)
  from add_existing_pair_is_idempotent [OF reachable_demo_store m, of 1 1 7]
    reachable_demo_store m
  show ?thesis by simp
qed

subsection \<open>Adding to a missing playlist or a missing track\<close>

text \<open>
  What the handler of \<open>POST /playlists/:playlistId/tracks\<close> makes of the two failures: a
  missing playlist is answered 404 by the handler itself, before the store is called; a
  missing track makes the store throw, and the handler answers an error that is not a
  \<open>ZodError\<close> with 500. Neither changes the store.
\<close>

lemma post_playlist_tracks_missing_playlist:
  "getPlaylistById s p = None \<Longrightarrow>
   post_playlist_tracks s (Num p) tid = (respond 404 (Message ''Playlist not found''), s)"
  by (simp add: post_playlist_tracks_def)

lemma post_playlist_tracks_missing_track:
  assumes "reachable s" and "getPlaylistById s p = Some playlist"
    and "playlist_userId playlist = req_user_id" and "getTrackById s t = None"
  shows "post_playlist_tracks s (Num p) (Num t) =
           (respond 500 (Message ''Failed to add track to playlist''), s)"
proof -
  from assms(1) have inv: "store_inv s" by (rule reachable_store_inv)
  from assms(2,4) have "addTrackToPlaylist s
      \<lparr>ipt_playlistId = p, ipt_trackId = t, ipt_position = n\<rparr> = (Inl (TrackNotFound t), s)" for n
    by (simp add: addTrackToPlaylist_def getPlaylistById_def getTrackById_def)
  with assms(2,3) show ?thesis
    by (simp add: post_playlist_tracks_def getPlaylistTracks_total [OF inv]
        insertPlaylistTrackSchema_parse_def)
qed

text \<open>
  The store itself: \<open>addTrackToPlaylist\<close> throws \<open>Playlist not found\<close> when it holds no
  playlist of the given id, and \<open>Track not found\<close> when it holds the playlist and no track
  of the given id. The store it leaves is the store it was given: no link is created.
\<close>

lemma addTrackToPlaylist_missing:
  "(getPlaylistById s (ipt_playlistId l) = None \<longrightarrow>
      addTrackToPlaylist s l = (Inl (PlaylistNotFound (ipt_playlistId l)), s)) \<and>
   (getPlaylistById s (ipt_playlistId l) \<noteq> None \<and> getTrackById s (ipt_trackId l) = None \<longrightarrow>
      addTrackToPlaylist s l = (Inl (TrackNotFound (ipt_trackId l)), s)) \<and>
   (getTrackById s (ipt_trackId l) = None \<longrightarrow>
      (\<exists>e. addTrackToPlaylist s l = (Inl e, s)) \<and>
      playlistTracks (snd (addTrackToPlaylist s l)) = playlistTracks s)"
  by (auto simp: addTrackToPlaylist_def getPlaylistById_def getTrackById_def
      split: option.splits)

text \<open>
  C5. Adding to a playlist that does not exist is answered 404 \<open>Playlist not found\<close>, and no
  link is created. Adding a track that does not exist creates no link either, but it is not
  answered as not found: on the default store of the running server, which holds playlist 1
  of the session user and no track 99, \<open>POST /playlists/1/tracks\<close> with \<open>trackId = 99\<close>
  makes the store throw \<open>Track not found\<close>, and the handler, which tells only a
  \<open>ZodError\<close> from other errors, answers 500 \<open>Failed to add track to playlist\<close>. The
  sibling \<open>DELETE /playlists/1/tracks/99\<close> answers the same missing track with 404.
\<close>

theorem add_missing_track_answered_500:
  "served storage \<and>
   getPlaylistById storage 1 \<noteq> None \<and> getTrackById storage 99 = None \<and>
   addTrackToPlaylist storage \<lparr>ipt_playlistId = 1, ipt_trackId = 99, ipt_position = 0\<rparr> =
     (Inl (TrackNotFound 99), storage) \<and>
   post_playlist_tracks storage (Num 1) (Num 99) =
     (respond 500 (Message ''Failed to add track to playlist''), storage) \<and>
   getPlaylistById storage 9 = None \<and>
   post_playlist_tracks storage (Num 9) (Num 99) =
     (respond 404 (Message ''Playlist not found''), storage) \<and>
   delete_playlist_tracks storage (Num 1) (Num 99) =
     (respond 404 (Message ''Track not found in playlist''), storage)"
proof -
  let ?p = "\<lparr>playlist_id = 1, playlist_name = ''Morning Reflections'', playlist_userId = 1,
      playlist_color = ''#2D46B9'', playlist_icon = ''ri-mic-fill''\<rparr>"
  have p1: "getPlaylistById storage 1 = Some ?p"
    by (simp add: getPlaylistById_def storage_eval map_get_def)
  then have p1': "getPlaylistById storage 1 \<noteq> None" by simp
  have o: "playlist_userId ?p = req_user_id" by (simp add: req_user_id_def)
  have p9: "getPlaylistById storage 9 = None"
    by (simp add: getPlaylistById_def storage_eval map_get_def)
  have t: "getTrackById storage 99 = None"
    by (simp add: getTrackById_def storage_eval map_get_def)
  have l: "playlistTracks storage = []" by (simp add: storage_eval)
  from addTrackToPlaylist_missing
      [of storage "\<lparr>ipt_playlistId = 1, ipt_trackId = 99, ipt_position = 0\<rparr>"] p1' t
  have a: "addTrackToPlaylist storage
      \<lparr>ipt_playlistId = 1, ipt_trackId = 99, ipt_position = 0\<rparr> =
      (Inl (TrackNotFound 99), storage)"
    by simp
  have h500: "post_playlist_tracks storage (Num 1) (Num 99) =
      (respond 500 (Message ''Failed to add track to playlist''), storage)"
    by (rule post_playlist_tracks_missing_track [OF reachable_storage p1 o t])
  have h404: "post_playlist_tracks storage (Num 9) (Num 99) =
      (respond 404 (Message ''Playlist not found''), storage)"
    by (rule post_playlist_tracks_missing_playlist [OF p9])
  have d404: "delete_playlist_tracks storage (Num 1) (Num 99) =
      (respond 404 (Message ''Track not found in playlist''), storage)"
    using p1 o
    by (simp add: delete_playlist_tracks_def removeTrackFromPlaylist_def array_find_def
        map_values_def l)
  from served_storage p1' t a h500 p9 h404 d404 show ?thesis by (intro conjI)
qed

subsection \<open>The position of a new link\<close>

lemma foldl_max_Max: "foldl max (x::int) xs = Max (set (x # xs))"
proof -
  have "foldl max x xs = fold max xs x"
    by (simp add: foldl_conv_fold max.commute)
  then show ?thesis by (simp only: Max.set_eq_fold)
qed

lemma maxPosition_sorted:
  "maxPosition (sort_key ta_position (map (\<lambda>pt. \<lparr>ta_track = g pt, ta_position = pt_position pt\<rparr>) links)) =
     (if links = [] then - 1 else Max (set (map pt_position links)))"
proof (cases "links = []")
  case True
  then show ?thesis by (simp add: maxPosition_def)
next
  case False
  let ?r = "sort_key ta_position (map (\<lambda>pt. \<lparr>ta_track = g pt, ta_position = pt_position pt\<rparr>) links)"
  have s: "set (map ta_position ?r) = set (map pt_position links)"
    by (simp add: image_image)
  from False have "length ?r \<noteq> 0" by simp
  then have "map ta_position ?r \<noteq> []" by (simp del: length_sort length_map)
  then obtain x xs where c: "map ta_position ?r = x # xs" by (cases "map ta_position ?r") auto
  then have "maxPosition ?r = Max (set (x # xs))"
    by (simp only: maxPosition_def list.case foldl_max_Max)
  with c s False show ?thesis by simp
qed

text \<open>
  The handler of \<open>POST /playlists/P/tracks\<close> on a playlist of the session user and a
  track that exist and are not linked, in a reachable store.
\<close>

lemma add_assigns_next_position_owned:
  assumes "reachable s"
    and "getPlaylistById s P = Some playlist" and "playlist_userId playlist = req_user_id"
    and "getTrackById s T = Some track"
    and "\<forall>pt\<in>set (map_values (playlistTracks s)). \<not> (pt_playlistId pt = P \<and> pt_trackId pt = T)"
  shows "\<exists>link.
           post_playlist_tracks s (Num P) (Num T) =
             (respond 201 (PlaylistTrackBody link),
              s\<lparr>playlistTracks := playlistTracks s @ [(pt_id link, link)],
                playlistTrackId := playlistTrackId s + 1\<rparr>) \<and>
           pt_id link = playlistTrackId s \<and> pt_playlistId link = P \<and> pt_trackId link = T \<and>
           pt_position link =
             (let positions = map pt_position
                    (filter (\<lambda>pt. pt_playlistId pt = P) (map_values (playlistTracks s)))
              in if positions = [] then 0 else Max (set positions) + 1)"
proof -
  from assms(1) have inv: "store_inv s" by (rule reachable_store_inv)
  let ?links = "filter (\<lambda>pt. pt_playlistId pt = P) (map_values (playlistTracks s))"
  let ?n = "if ?links = [] then 0 else Max (set (map pt_position ?links)) + 1"
  let ?l = "\<lparr>ipt_playlistId = P, ipt_trackId = T, ipt_position = ?n\<rparr>"
  let ?link = "\<lparr>pt_id = playlistTrackId s, pt_playlistId = P, pt_trackId = T, pt_position = ?n\<rparr>"
  from assms(5) have none: "array_find (\<lambda>pt. pt_playlistId pt = ipt_playlistId ?l \<and>
      pt_trackId pt = ipt_trackId ?l) (map_values (playlistTracks s)) = None"
    by (simp add: array_find_None_iff)
  from assms(2) have p: "map_get (playlists s) (ipt_playlistId ?l) = Some playlist"
    by (simp add: getPlaylistById_def)
  from assms(4) have t: "map_get (tracks s) (ipt_trackId ?l) = Some track"
    by (simp add: getTrackById_def)
  have add: "addTrackToPlaylist s ?l =
     (Inr ?link, s\<lparr>playlistTracks := playlistTracks s @ [(playlistTrackId s, ?link)],
                  playlistTrackId := playlistTrackId s + 1\<rparr>)"
    using addTrackToPlaylist_new [OF inv p t none] by simp
  have pos: "maxPosition (sort_key ta_position
       (map (\<lambda>pt. \<lparr>ta_track = the (map_get (tracks s) (pt_trackId pt)),
                    ta_position = pt_position pt\<rparr>) ?links)) + 1 = ?n"
    by (simp only: maxPosition_sorted) simp
  have "post_playlist_tracks s (Num P) (Num T) =
      (respond 201 (PlaylistTrackBody ?link),
       s\<lparr>playlistTracks := playlistTracks s @ [(playlistTrackId s, ?link)],
         playlistTrackId := playlistTrackId s + 1\<rparr>)"
    unfolding post_playlist_tracks_def getPlaylistTracks_total [OF inv]
    using assms(2,3) add
    by (simp only: pos jsnum.case option.case if_False if_True simp_thms sum.case
        insertPlaylistTrackSchema_parse_def prod.case)
  then show ?thesis
    by (intro exI [of _ ?link]) (simp add: Let_def)
qed

subsection \<open>Ids\<close>

lemma counter_mono: "counter e s \<le> counter e (exec call s)"
proof (cases call)
  case (AddTrackToPlaylist l)
  then show ?thesis
    by (cases e) (simp_all add: addTrackToPlaylist_def Let_def split: option.splits)
next
  case (UpdateUser i u)
  then show ?thesis by (cases e) (simp_all add: updateUser_def Let_def split: option.splits)
next
  case (UpdateCategory i u)
  then show ?thesis by (cases e) (simp_all add: updateCategory_def Let_def split: option.splits)
next
  case (UpdatePlaylist i u)
  then show ?thesis by (cases e) (simp_all add: updatePlaylist_def Let_def split: option.splits)
next
  case (UpdateTrack i u)
  then show ?thesis by (cases e) (simp_all add: updateTrack_def Let_def split: option.splits)
next
  case (RemoveTrackFromPlaylist p t)
  then show ?thesis
    by (cases e)
      (simp_all add: removeTrackFromPlaylist_def map_delete_def split: option.splits)
next
  case (UpdateTrackPosition p t n)
  then show ?thesis
    by (cases e) (simp_all add: updateTrackPosition_def split: option.splits)
qed (cases e; simp add: createUser_def createCategory_def createPlaylist_def createTrack_def
      deleteCategory_def deletePlaylist_def deleteTrack_def map_delete_def Let_def)+

text \<open>A call that assigns an id assigns the counter and moves the counter past it.\<close>

lemma assigned_counter:
  "assigned call s = Some (e, i) \<Longrightarrow> i = counter e s \<and> counter e (exec call s) = i + 1"
proof (cases call)
  case (AddTrackToPlaylist l)
  assume a: "assigned call s = Some (e, i)"
  show ?thesis
  proof (cases "array_find (\<lambda>pt. pt_playlistId pt = ipt_playlistId l \<and>
      pt_trackId pt = ipt_trackId l) (map_values (playlistTracks s))")
    case None
    with a AddTrackToPlaylist show ?thesis
      by (auto simp: addTrackToPlaylist_def Let_def split: option.splits if_splits)
  next
    case (Some existing)
    then have "existing \<in> set (map_values (playlistTracks s))"
      by (auto dest: array_find_SomeD)
    with a AddTrackToPlaylist Some show ?thesis
      by (auto simp: addTrackToPlaylist_def Let_def split: option.splits if_splits)
  qed
qed (auto simp: createUser_def createCategory_def createPlaylist_def createTrack_def Let_def)

lemma assigned_ids_lower: "i \<in> set (assigned_ids e s calls) \<Longrightarrow> counter e s \<le> i"
proof (induction calls arbitrary: s)
  case Nil
  then show ?case by simp
next
  case (Cons call calls)
  from Cons.prems consider
    (now) e' where "assigned call s = Some (e', i)" "e' = e"
    | (later) "i \<in> set (assigned_ids e (exec call s) calls)"
    by (auto split: option.splits if_splits)
  then show ?case
  proof cases
    case now
    with assigned_counter [of call s e i] show ?thesis by simp
  next
    case later
    from Cons.IH [OF later] counter_mono [of e s call] show ?thesis by simp
  qed
qed

lemma assigned_ids_sorted: "sorted_wrt (<) (assigned_ids e s calls)"
proof (induction calls arbitrary: s)
  case Nil
  show ?case by simp
next
  case (Cons call calls)
  show ?case
  proof (cases "assigned call s")
    case None
    with Cons.IH show ?thesis by simp
  next
    case (Some a)
    obtain e' i where a: "a = (e', i)" by (cases a)
    show ?thesis
    proof (cases "e' = e")
      case False
      with Some a Cons.IH show ?thesis by simp
    next
      case True
      with Some a assigned_counter [of call s e i]
      have "counter e (exec call s) = i + 1" by simp
      with assigned_ids_lower [of _ e "exec call s" calls]
      have "\<forall>j\<in>set (assigned_ids e (exec call s) calls). i < j" by fastforce
      with Some a True Cons.IH show ?thesis by simp
    qed
  qed
qed

lemma storage_run: "storage = run default_calls MemStorage_new"
  by (simp add: storage_def initializeDefaultData_def default_calls_def MemStorage_new_def
      createUser_def createCategory_def createPlaylist_def defaultUser_def categoryData_def
      playlistData_def Let_def)

lemma assigned_ids_append:
  "assigned_ids e s (calls @ calls') =
     assigned_ids e s calls @ assigned_ids e (run calls s) calls'"
  by (induction calls arbitrary: s) simp_all

lemma stored_ids_below_counter:
  assumes "reachable s" shows "\<forall>k\<in>set (stored_ids e s). k < counter e s"
proof -
  from assms have "store_inv s" by (rule reachable_store_inv)
  then show ?thesis by (cases e) (simp_all add: store_inv_def)
qed

text \<open>
  C4. Along any run of calls from any store, with deletions among them or not, the ids
  assigned to the entities of one type are strictly increasing, hence pairwise distinct, and
  none is below the counter the run started with; from a reachable store each is above every
  id the store holds. The default data is itself such a run from the empty store of the
  constructor (\<open>storage_run\<close>), so this covers every id assigned since construction.
\<close>

theorem ids_strictly_increasing:
  "sorted_wrt (<) (assigned_ids e s calls) \<and>
   distinct (assigned_ids e s calls) \<and>
   (\<forall>i\<in>set (assigned_ids e s calls). counter e s \<le> i) \<and>
   (reachable s \<longrightarrow>
      (\<forall>i\<in>set (assigned_ids e s calls). \<forall>k\<in>set (stored_ids e s). k < i))"
proof (intro conjI impI ballI)
  show "sorted_wrt (<) (assigned_ids e s calls)" by (rule assigned_ids_sorted)
  then show "distinct (assigned_ids e s calls)" by (simp add: strict_sorted_iff)
next
  fix i assume "i \<in> set (assigned_ids e s calls)"
  then show "counter e s \<le> i" by (rule assigned_ids_lower)
next
  fix i k assume "reachable s" "i \<in> set (assigned_ids e s calls)" "k \<in> set (stored_ids e s)"
  with stored_ids_below_counter [of s e] assigned_ids_lower [of i e s calls]
  show "k < i" by fastforce
qed

theorem ids_strictly_increasing_witness:
  "reachable storage \<and>
   stored_ids EPlaylist storage = [1, 2, 3] \<and>
   assigned_ids EPlaylist storage
     [CreatePlaylist \<lparr>ip_name = ''Demo'', ip_userId = 1, ip_color = ''#000000'', ip_icon = ''x''\<rparr>,
      DeletePlaylist 4,
      CreatePlaylist \<lparr>ip_name = ''Demo'', ip_userId = 1, ip_color = ''#000000'', ip_icon = ''x''\<rparr>]
     = [4, 5] \<and>
   sorted_wrt (<) (assigned_ids EPlaylist storage
     [CreatePlaylist \<lparr>ip_name = ''Demo'', ip_userId = 1, ip_color = ''#000000'', ip_icon = ''x''\<rparr>,
      DeletePlaylist 4,
      CreatePlaylist \<lparr>ip_name = ''Demo'', ip_userId = 1, ip_color = ''#000000'', ip_icon = ''x''\<rparr>]) \<and>
   distinct (assigned_ids EPlaylist storage
     [CreatePlaylist \<lparr>ip_name = ''Demo'', ip_userId = 1, ip_color = ''#000000'', ip_icon = ''x''\<rparr>,
      DeletePlaylist 4,
      CreatePlaylist \<lparr>ip_name = ''Demo'', ip_userId = 1, ip_color = ''#000000'', ip_icon = ''x''\<rparr>])"
proof -
  let ?calls = "[CreatePlaylist \<lparr>ip_name = ''Demo'', ip_userId = 1, ip_color = ''#000000'', ip_icon = ''x''\<rparr>,
      DeletePlaylist 4,
      CreatePlaylist \<lparr>ip_name = ''Demo'', ip_userId = 1, ip_color = ''#000000'', ip_icon = ''x''\<rparr>]"
  have a: "assigned_ids EPlaylist storage ?calls = [4, 5]"
    by (simp add: storage_eval createPlaylist_def deletePlaylist_def delete_links_def
        map_delete_def map_values_def map_keys_def Let_def)
  have k: "stored_ids EPlaylist storage = [1, 2, 3]"
    by (simp add: storage_eval map_keys_def)
  from ids_strictly_increasing [of EPlaylist storage ?calls] reachable_storage a k
  show ?thesis by blast
qed

subsection \<open>The password stays in the store\<close>

lemma map_get_with_password:
  "map_get (users (with_password s uid pw)) k =
     map_option (\<lambda>user. if k = uid then user\<lparr>user_password := pw\<rparr> else user)
       (map_get (users s) k)"
proof -
  have "map_of (map (\<lambda>(k, user). if k = uid then (k, user\<lparr>user_password := pw\<rparr>)
                                   else (k, user)) m) k =
     map_option (\<lambda>user. if k = uid then user\<lparr>user_password := pw\<rparr> else user) (map_of m k)"
    for m :: "User jsmap"
    by (induction m) auto
  then show ?thesis by (simp add: with_password_def map_get_def)
qed

lemma userData_password: "userData (user\<lparr>user_password := pw\<rparr>) = userData user"
  by (simp add: userData_def)

lemma map_set_with_password:
  "map (\<lambda>(k, user). if k = uid then (k, user\<lparr>user_password := pw\<rparr>) else (k, user))
     (map_set m uid user) =
   map_set (map (\<lambda>(k, user). if k = uid then (k, user\<lparr>user_password := pw\<rparr>) else (k, user)) m)
     uid (user\<lparr>user_password := pw\<rparr>)"
  by (induction m) auto

text \<open>
  \<open>GET /users/me\<close> and \<open>PATCH /users/me\<close> in two stores that differ in the password of
  the session user.
\<close>

lemma ni_users_me:
  "get_users_me (with_password s req_user_id pw) = get_users_me s \<and>
   fst (patch_users_me (with_password s req_user_id pw) req_body) =
     fst (patch_users_me s req_body) \<and>
   snd (patch_users_me (with_password s req_user_id pw) req_body) =
     with_password (snd (patch_users_me s req_body)) req_user_id pw"
proof (intro conjI)
  show "get_users_me (with_password s req_user_id pw) = get_users_me s"
    by (cases "map_get (users s) req_user_id")
       (simp_all add: get_users_me_def getUser_def map_get_with_password userData_password)
next
  show "fst (patch_users_me (with_password s req_user_id pw) req_body) =
     fst (patch_users_me s req_body)"
  proof (cases req_body)
    case (Inl issues)
    then show ?thesis by (simp add: patch_users_me_def updateSchema_parse_def)
  next
    case (Inr d)
    then show ?thesis
      by (cases "map_get (users s) req_user_id")
         (simp_all add: patch_users_me_def updateSchema_parse_def updateUser_def
           map_get_with_password Let_def userData_def spread_def)
  qed
next
  show "snd (patch_users_me (with_password s req_user_id pw) req_body) =
     with_password (snd (patch_users_me s req_body)) req_user_id pw"
  proof (cases req_body)
    case (Inl issues)
    then show ?thesis by (simp add: patch_users_me_def updateSchema_parse_def)
  next
    case (Inr d)
    show ?thesis
    proof (cases "map_get (users s) req_user_id")
      case None
      with Inr show ?thesis
        by (simp add: patch_users_me_def updateSchema_parse_def updateUser_def
            map_get_with_password)
    next
      case (Some user)
      obtain i n p e ph f a where "user = \<lparr>user_id = i, user_username = n, user_password = p,
          user_email = e, user_phone = ph, user_fullName = f, user_avatarColor = a\<rparr>"
        by (cases user)
      with Some Inr show ?thesis
        by (simp add: patch_users_me_def updateSchema_parse_def updateUser_def
            map_get_with_password Let_def spread_def)
          (simp add: with_password_def map_set_with_password)
    qed
  qed
qed

subsection \<open>Usernames\<close>

text \<open>
  C9. The column \<open>username\<close> is declared \<open>unique()\<close> in shared/schema.ts, and neither
  \<open>createUser\<close> nor \<open>updateUser\<close> looks at the usernames the store holds. Creating the
  default user a second time gives two users called \<open>user\<close>; and with a second user
  \<open>bob\<close> in a store whose usernames are unique, \<open>PATCH /users/me\<close> with
  \<open>username = bob\<close> answers 200 and leaves two users called \<open>bob\<close>. (No route calls
  \<open>createUser\<close>: the store of the running server keeps its one user, see
  \<open>served_usernames_unique\<close>.)
\<close>

theorem usernames_not_unique:
  "reachable (exec (CreateUser defaultUser) storage) \<and>
   \<not> usernames_unique (exec (CreateUser defaultUser) storage) \<and>
   reachable (exec (CreateUser (defaultUser\<lparr>iu_username := ''bob''\<rparr>)) storage) \<and>
   usernames_unique (exec (CreateUser (defaultUser\<lparr>iu_username := ''bob''\<rparr>)) storage) \<and>
   res_status (fst (patch_users_me
     (exec (CreateUser (defaultUser\<lparr>iu_username := ''bob''\<rparr>)) storage)
     (Inr \<lparr>pu_username = Some ''bob'', pu_password = None, pu_email = None, pu_phone = None,
           pu_fullName = None, pu_avatarColor = None\<rparr>))) = 200 \<and>
   \<not> usernames_unique (snd (patch_users_me
     (exec (CreateUser (defaultUser\<lparr>iu_username := ''bob''\<rparr>)) storage)
     (Inr \<lparr>pu_username = Some ''bob'', pu_password = None, pu_email = None, pu_phone = None,
           pu_fullName = None, pu_avatarColor = None\<rparr>)))"
proof (intro conjI)
  show "reachable (exec (CreateUser defaultUser) storage)"
    by (intro reachable_exec reachable_storage)
  show "reachable (exec (CreateUser (defaultUser\<lparr>iu_username := ''bob''\<rparr>)) storage)"
    by (intro reachable_exec reachable_storage)
  show "\<not> usernames_unique (exec (CreateUser defaultUser) storage)"
    by (simp add: usernames_unique_def storage_eval createUser_def defaultUser_def
        map_values_def Let_def)
  show "usernames_unique (exec (CreateUser (defaultUser\<lparr>iu_username := ''bob''\<rparr>)) storage)"
    by (simp add: usernames_unique_def storage_eval createUser_def defaultUser_def
        map_values_def Let_def)
  show "res_status (fst (patch_users_me
     (exec (CreateUser (defaultUser\<lparr>iu_username := ''bob''\<rparr>)) storage)
     (Inr \<lparr>pu_username = Some ''bob'', pu_password = None, pu_email = None, pu_phone = None,
           pu_fullName = None, pu_avatarColor = None\<rparr>))) = 200"
    by (simp add: storage_eval createUser_def defaultUser_def patch_users_me_def
        updateSchema_parse_def updateUser_def map_get_def req_user_id_def respond_def Let_def)
  show "\<not> usernames_unique (snd (patch_users_me
     (exec (CreateUser (defaultUser\<lparr>iu_username := ''bob''\<rparr>)) storage)
     (Inr \<lparr>pu_username = Some ''bob'', pu_password = None, pu_email = None, pu_phone = None,
           pu_fullName = None, pu_avatarColor = None\<rparr>)))"
    by (simp add: usernames_unique_def storage_eval createUser_def defaultUser_def
        patch_users_me_def updateSchema_parse_def updateUser_def map_get_def req_user_id_def
        map_values_def spread_def Let_def)
qed

subsection \<open>Tracks of a category\<close>

lemma getTracksByCategory_Num:
  "getTracksByCategory s (Num c) =
     filter (\<lambda>track. track_categoryId track = Some (Num c)) (map_values (tracks s))"
proof -
  have h: "(case track_categoryId track of None \<Rightarrow> False | Some x \<Rightarrow> strict_eq x (Num c)) =
      (track_categoryId track = Some (Num c))" for track
  proof (cases "track_categoryId track")
    case None
    then show ?thesis by simp
  next
    case (Some x)
    then show ?thesis by (cases x) auto
  qed
  show ?thesis by (simp add: getTracksByCategory_def h)
qed

lemma getTracksByCategory_NaN: "getTracksByCategory s NaN = []"
proof -
  have h: "(case track_categoryId track of None \<Rightarrow> False | Some x \<Rightarrow> strict_eq x NaN) = False"
    for track
    by (cases "track_categoryId track") simp_all
  show ?thesis by (simp add: getTracksByCategory_def h)
qed

lemma foreign_track_store_eval:
  "foreign_track_store =
     storage\<lparr>tracks :=
         [(1, \<lparr>track_id = 1, track_name = ''memo'', track_userId = 2,
                track_categoryId = Some (Num 1), track_duration = Num 42,
                track_filePath = ''uploads/1-1.webm'', track_createdAt = Some 1000\<rparr>)],
       trackId := 2\<rparr>"
  by (simp add: foreign_track_store_def demo_track_def storage_eval createTrack_def Let_def)

lemma reachable_foreign_track_store: "reachable foreign_track_store"
  unfolding foreign_track_store_def by (intro reachable_exec reachable_storage)

text \<open>
  C10. \<open>getTracksByCategory\<close> returns the stored tracks whose \<open>categoryId\<close> is the
  argument (none for \<open>NaN\<close>, which is equal to nothing), whoever owns them, and
  \<open>GET /tracks?categoryId=c\<close> answers with exactly these when category \<open>c\<close> belongs to the
  session user. An upload with a file and valid fields creates the track with the
  \<open>categoryId\<close> it was given, whatever the categories of the store are. And there is a
  reachable store in which \<open>GET /tracks?categoryId=1\<close> answers 200 with a track that the
  session user does not own. (That store is reached by a call of \<open>createTrack\<close> for user 2;
  the handlers create tracks for the session user only, see \<open>served_owned\<close>.)
\<close>

theorem category_tracks_ignore_owner:
  "getTracksByCategory s (Num c) =
     filter (\<lambda>track. track_categoryId track = Some (Num c)) (map_values (tracks s)) \<and>
   getTracksByCategory s NaN = [] \<and>
   (c \<noteq> 0 \<and> getCategoryById s c = Some category \<and> category_userId category = req_user_id \<longrightarrow>
      get_tracks s (Some (Num c)) =
        respond 200 (TracksBody
          (filter (\<lambda>track. track_categoryId track = Some (Num c)) (map_values (tracks s))))) \<and>
   post_tracks_upload s now (Some path) (Inr form) =
     (respond 201 (TrackBody
        \<lparr>track_id = trackId s, track_name = uf_name form, track_userId = req_user_id,
         track_categoryId = Some (uf_categoryId form), track_duration = uf_duration form,
         track_filePath = path, track_createdAt = Some now\<rparr>),
      s\<lparr>tracks := map_set (tracks s) (trackId s)
           \<lparr>track_id = trackId s, track_name = uf_name form, track_userId = req_user_id,
            track_categoryId = Some (uf_categoryId form), track_duration = uf_duration form,
            track_filePath = path, track_createdAt = Some now\<rparr>,
        trackId := trackId s + 1\<rparr>) \<and>
   (\<exists>s' listed track.
      reachable s' \<and>
      get_tracks s' (Some (Num 1)) = respond 200 (TracksBody listed) \<and>
      track \<in> set listed \<and> track_userId track \<noteq> req_user_id)"
proof (intro conjI impI)
  show "getTracksByCategory s (Num c) =
     filter (\<lambda>track. track_categoryId track = Some (Num c)) (map_values (tracks s))"
    by (rule getTracksByCategory_Num)
  show "getTracksByCategory s NaN = []" by (rule getTracksByCategory_NaN)
  show "post_tracks_upload s now (Some path) (Inr form) =
     (respond 201 (TrackBody
        \<lparr>track_id = trackId s, track_name = uf_name form, track_userId = req_user_id,
         track_categoryId = Some (uf_categoryId form), track_duration = uf_duration form,
         track_filePath = path, track_createdAt = Some now\<rparr>),
      s\<lparr>tracks := map_set (tracks s) (trackId s)
           \<lparr>track_id = trackId s, track_name = uf_name form, track_userId = req_user_id,
            track_categoryId = Some (uf_categoryId form), track_duration = uf_duration form,
            track_filePath = path, track_createdAt = Some now\<rparr>,
        trackId := trackId s + 1\<rparr>)"
    by (simp add: post_tracks_upload_def createTrack_def Let_def)
  let ?t = "\<lparr>track_id = 1, track_name = ''memo'', track_userId = 2,
            track_categoryId = Some (Num 1), track_duration = Num 42,
            track_filePath = ''uploads/1-1.webm'', track_createdAt = Some 1000\<rparr>"
  have g: "get_tracks foreign_track_store (Some (Num 1)) = respond 200 (TracksBody [?t])"
    by (simp add: get_tracks_def getCategoryById_def getTracksByCategory_Num storage_eval
        foreign_track_store_eval map_get_def map_values_def req_user_id_def)
  have o: "?t \<in> set [?t] \<and> track_userId ?t \<noteq> req_user_id"
    by (simp add: req_user_id_def)
  from reachable_foreign_track_store g o show "\<exists>s' listed track.
      reachable s' \<and>
      get_tracks s' (Some (Num 1)) = respond 200 (TracksBody listed) \<and>
      track \<in> set listed \<and> track_userId track \<noteq> req_user_id"
    by blast
next
  assume "c \<noteq> 0 \<and> getCategoryById s c = Some category \<and>
      category_userId category = req_user_id"
  then show "get_tracks s (Some (Num c)) =
        respond 200 (TracksBody
          (filter (\<lambda>track. track_categoryId track = Some (Num c)) (map_values (tracks s))))"
    by (simp add: get_tracks_def getTracksByCategory_Num)
qed

theorem category_tracks_ignore_owner_witness:
  "reachable foreign_track_store \<and>
   getCategoryById foreign_track_store 1 =
     Some \<lparr>category_id = 1, category_name = ''Interviews'', category_icon = ''ri-mic-fill'',
           category_color = ''#1DB954'', category_userId = 1\<rparr> \<and>
   get_tracks foreign_track_store (Some (Num 1)) =
     respond 200 (TracksBody
       [\<lparr>track_id = 1, track_name = ''memo'', track_userId = 2,
         track_categoryId = Some (Num 1), track_duration = Num 42,
         track_filePath = ''uploads/1-1.webm'', track_createdAt = Some 1000\<rparr>]) \<and>
   getCategoryById storage 77 = None \<and>
   fst (post_tracks_upload storage 1000 (Some ''uploads/2-2.webm'')
     (Inr \<lparr>uf_name = ''memo'', uf_categoryId = Num 77, uf_duration = Num 3\<rparr>)) =
     respond 201 (TrackBody
        \<lparr>track_id = 1, track_name = ''memo'', track_userId = 1,
         track_categoryId = Some (Num 77), track_duration = Num 3,
         track_filePath = ''uploads/2-2.webm'', track_createdAt = Some 1000\<rparr>)"
proof -
  let ?c = "\<lparr>category_id = 1, category_name = ''Interviews'', category_icon = ''ri-mic-fill'',
           category_color = ''#1DB954'', category_userId = 1\<rparr>"
  have c1: "getCategoryById foreign_track_store 1 = Some ?c"
    by (simp add: getCategoryById_def foreign_track_store_eval storage_eval map_get_def)
  have o: "(1::int) \<noteq> 0 \<and> category_userId ?c = req_user_id"
    by (simp add: req_user_id_def)
  have f: "filter (\<lambda>track. track_categoryId track = Some (Num 1))
      (map_values (tracks foreign_track_store)) =
      [\<lparr>track_id = 1, track_name = ''memo'', track_userId = 2,
         track_categoryId = Some (Num 1), track_duration = Num 42,
         track_filePath = ''uploads/1-1.webm'', track_createdAt = Some 1000\<rparr>]"
    by (simp add: foreign_track_store_eval map_values_def)
  from category_tracks_ignore_owner [where s = foreign_track_store and c = 1
      and category = ?c] c1 o
  have g: "get_tracks foreign_track_store (Some (Num 1)) =
      respond 200 (TracksBody
        (filter (\<lambda>track. track_categoryId track = Some (Num 1))
           (map_values (tracks foreign_track_store))))"
    by blast
  have c: "getCategoryById storage 77 = None"
    by (simp add: getCategoryById_def storage_eval map_get_def)
  have i: "trackId storage = 1" by (simp add: storage_eval)
  from category_tracks_ignore_owner [where s = storage and now = 1000
      and path = "''uploads/2-2.webm''"
      and form = "\<lparr>uf_name = ''memo'', uf_categoryId = Num 77, uf_duration = Num 3\<rparr>"] i
  have u: "fst (post_tracks_upload storage 1000 (Some ''uploads/2-2.webm'')
     (Inr \<lparr>uf_name = ''memo'', uf_categoryId = Num 77, uf_duration = Num 3\<rparr>)) =
     respond 201 (TrackBody
        \<lparr>track_id = 1, track_name = ''memo'', track_userId = 1,
         track_categoryId = Some (Num 77), track_duration = Num 3,
         track_filePath = ''uploads/2-2.webm'', track_createdAt = Some 1000\<rparr>)"
    by (simp add: req_user_id_def)
  from reachable_foreign_track_store c1 g c u show ?thesis
    unfolding f by (intro conjI)
qed

subsection \<open>The store of the running server\<close>

text \<open>A request changes the store by calls of the store, if at all.\<close>

lemma handle_calls: "snd (handle request s) = s \<or> (\<exists>call. snd (handle request s) = exec call s)"
proof (cases request)
  case GET_users_me
  then show ?thesis by simp
next
  case (PATCH_users_me b)
  have "snd (patch_users_me s b) = s \<or>
      (\<exists>u. snd (patch_users_me s b) = exec (UpdateUser req_user_id u) s)"
    by (auto simp: patch_users_me_def updateSchema_parse_def case_prod_unfold Let_def
        split: jsnum.splits sum.splits option.splits)
  with PATCH_users_me show ?thesis by (auto simp del: exec.simps)
next
  case GET_categories
  then show ?thesis by simp
next
  case (POST_categories b)
  have "snd (post_categories s b) = s \<or> (\<exists>c. snd (post_categories s b) = exec (CreateCategory c) s)"
    by (auto simp: post_categories_def case_prod_unfold Let_def
        split: jsnum.splits sum.splits option.splits)
  with POST_categories show ?thesis by (auto simp del: exec.simps)
next
  case (PATCH_categories i b)
  have "snd (patch_categories s i b) = s \<or>
      (\<exists>k u. snd (patch_categories s i b) = exec (UpdateCategory k u) s)"
    by (auto simp: patch_categories_def case_prod_unfold Let_def
        split: jsnum.splits sum.splits option.splits)
  with PATCH_categories show ?thesis by (auto simp del: exec.simps)
next
  case (DELETE_categories i)
  have "snd (delete_categories s i) = s \<or>
      (\<exists>k. snd (delete_categories s i) = exec (DeleteCategory k) s)"
    by (auto simp: delete_categories_def case_prod_unfold Let_def
        split: jsnum.splits sum.splits option.splits)
  with DELETE_categories show ?thesis by (auto simp del: exec.simps)
next
  case GET_playlists
  then show ?thesis by simp
next
  case (GET_playlist i)
  then show ?thesis by simp
next
  case (POST_playlists b)
  have "snd (post_playlists s b) = s \<or> (\<exists>c. snd (post_playlists s b) = exec (CreatePlaylist c) s)"
    by (auto simp: post_playlists_def case_prod_unfold Let_def
        split: jsnum.splits sum.splits option.splits)
  with POST_playlists show ?thesis by (auto simp del: exec.simps)
next
  case (PATCH_playlists i b)
  have "snd (patch_playlists s i b) = s \<or>
      (\<exists>k u. snd (patch_playlists s i b) = exec (UpdatePlaylist k u) s)"
    by (auto simp: patch_playlists_def case_prod_unfold Let_def
        split: jsnum.splits sum.splits option.splits)
  with PATCH_playlists show ?thesis by (auto simp del: exec.simps)
next
  case (DELETE_playlists i)
  have "snd (delete_playlists s i) = s \<or>
      (\<exists>k. snd (delete_playlists s i) = exec (DeletePlaylist k) s)"
    by (auto simp: delete_playlists_def case_prod_unfold Let_def
        split: jsnum.splits sum.splits option.splits)
  with DELETE_playlists show ?thesis by (auto simp del: exec.simps)
next
  case (GET_tracks c)
  then show ?thesis by simp
next
  case (POST_tracks_upload now f b)
  have "snd (post_tracks_upload s now f b) = s \<or>
      (\<exists>t. snd (post_tracks_upload s now f b) = exec (CreateTrack now t) s)"
    by (auto simp: post_tracks_upload_def case_prod_unfold Let_def
        split: jsnum.splits sum.splits option.splits)
  with POST_tracks_upload show ?thesis by (auto simp del: exec.simps)
next
  case (GET_track_audio i)
  then show ?thesis by simp
next
  case (DELETE_tracks i)
  have "snd (delete_tracks s i) = s \<or> (\<exists>k. snd (delete_tracks s i) = exec (DeleteTrack k) s)"
    by (auto simp: delete_tracks_def case_prod_unfold Let_def
        split: jsnum.splits sum.splits option.splits)
  with DELETE_tracks show ?thesis by (auto simp del: exec.simps)
next
  case (POST_playlist_tracks p t)
  have "snd (post_playlist_tracks s p t) = s \<or>
      (\<exists>l. snd (post_playlist_tracks s p t) = exec (AddTrackToPlaylist l) s)"
    by (auto simp: post_playlist_tracks_def case_prod_unfold Let_def
        split: jsnum.splits sum.splits option.splits)
  with POST_playlist_tracks show ?thesis by (auto simp del: exec.simps)
next
  case (DELETE_playlist_tracks p t)
  have "snd (delete_playlist_tracks s p t) = s \<or>
      (\<exists>k l. snd (delete_playlist_tracks s p t) = exec (RemoveTrackFromPlaylist k l) s)"
    by (auto simp: delete_playlist_tracks_def case_prod_unfold Let_def
        split: jsnum.splits sum.splits option.splits)
  with DELETE_playlist_tracks show ?thesis by (auto simp del: exec.simps)
qed

lemma served_reachable: "served s \<Longrightarrow> reachable s"
proof (induction rule: served.induct)
  case served_storage
  show ?case by (rule reachable_storage)
next
  case (served_handle s request)
  with handle_calls [of request s] show ?case by (auto intro: reachable_exec)
qed
text \<open>
  The handlers create for the session user and never change an owner, so the running
  server holds nothing that belongs to anybody else.
\<close>

lemma spread_None: "spread old None = old"
  by (simp add: spread_def)

lemma owned_storage: "owned_by_session_user storage"
  by (simp add: owned_by_session_user_def storage_eval map_values_def req_user_id_def)

lemma owned_post_categories:
  "owned_by_session_user s \<Longrightarrow> owned_by_session_user (snd (post_categories s b))"
  by (auto simp: owned_by_session_user_def post_categories_def createCategory_def Let_def
      split: sum.splits dest!: set_values_map_set)

lemma owned_patch_categories:
  "owned_by_session_user s \<Longrightarrow> owned_by_session_user (snd (patch_categories s i b))"
  by (auto simp: owned_by_session_user_def patch_categories_def updateCategory_def Let_def
      spread_None getCategoryById_def
      split: jsnum.splits sum.splits option.splits dest!: set_values_map_set)

lemma owned_delete_categories:
  "owned_by_session_user s \<Longrightarrow> owned_by_session_user (snd (delete_categories s i))"
  by (auto simp: owned_by_session_user_def delete_categories_def deleteCategory_def
      map_delete_def
      split: jsnum.splits option.splits dest!: set_values_filter)

lemma owned_post_playlists:
  "owned_by_session_user s \<Longrightarrow> owned_by_session_user (snd (post_playlists s b))"
  by (auto simp: owned_by_session_user_def post_playlists_def createPlaylist_def Let_def
      split: sum.splits dest!: set_values_map_set)

lemma owned_patch_playlists:
  "owned_by_session_user s \<Longrightarrow> owned_by_session_user (snd (patch_playlists s i b))"
  by (auto simp: owned_by_session_user_def patch_playlists_def updatePlaylist_def Let_def
      spread_None getPlaylistById_def
      split: jsnum.splits sum.splits option.splits dest!: set_values_map_set)

lemma owned_delete_playlists:
  "owned_by_session_user s \<Longrightarrow> owned_by_session_user (snd (delete_playlists s i))"
  by (auto simp: owned_by_session_user_def delete_playlists_def deletePlaylist_def
      map_delete_def Let_def
      split: jsnum.splits option.splits dest!: set_values_filter)

lemma owned_post_tracks_upload:
  "owned_by_session_user s \<Longrightarrow> owned_by_session_user (snd (post_tracks_upload s now f b))"
  by (auto simp: owned_by_session_user_def post_tracks_upload_def createTrack_def Let_def
      split: sum.splits option.splits dest!: set_values_map_set)

lemma owned_delete_tracks:
  "owned_by_session_user s \<Longrightarrow> owned_by_session_user (snd (delete_tracks s i))"
  by (auto simp: owned_by_session_user_def delete_tracks_def deleteTrack_def
      map_delete_def Let_def
      split: jsnum.splits option.splits dest!: set_values_filter)

lemma owned_patch_users_me:
  "owned_by_session_user s \<Longrightarrow> owned_by_session_user (snd (patch_users_me s b))"
  by (auto simp: owned_by_session_user_def patch_users_me_def updateSchema_parse_def
      updateUser_def Let_def
      split: sum.splits option.splits)

lemma owned_post_playlist_tracks:
  "owned_by_session_user s \<Longrightarrow> owned_by_session_user (snd (post_playlist_tracks s p t))"
  by (auto simp: owned_by_session_user_def post_playlist_tracks_def addTrackToPlaylist_def
      Let_def
      split: jsnum.splits sum.splits option.splits)

lemma owned_delete_playlist_tracks:
  "owned_by_session_user s \<Longrightarrow> owned_by_session_user (snd (delete_playlist_tracks s p t))"
  by (auto simp: owned_by_session_user_def delete_playlist_tracks_def
      removeTrackFromPlaylist_def map_delete_def
      split: jsnum.splits option.splits)

lemma served_owned: "served s \<Longrightarrow> owned_by_session_user s"
proof (induction rule: served.induct)
  case served_storage
  show ?case by (rule owned_storage)
next
  case (served_handle s request)
  then show ?case
    by (cases request)
      (simp_all add: owned_post_categories owned_patch_categories owned_delete_categories
        owned_post_playlists owned_patch_playlists owned_delete_playlists
        owned_post_tracks_upload owned_delete_tracks owned_patch_users_me
        owned_post_playlist_tracks owned_delete_playlist_tracks)
qed

text \<open>
  The handlers that are not about the user read and write the other maps and the counters
  only: in a store that differs in a password they answer the same and do the same.
\<close>

lemma reads_with_password:
  "getCategories (with_password s u pw) = getCategories s"
  "getCategoryById (with_password s u pw) = getCategoryById s"
  "getPlaylists (with_password s u pw) = getPlaylists s"
  "getPlaylistById (with_password s u pw) = getPlaylistById s"
  "getTracks (with_password s u pw) = getTracks s"
  "getTrackById (with_password s u pw) = getTrackById s"
  "getTracksByCategory (with_password s u pw) = getTracksByCategory s"
  "getPlaylistTracks (with_password s u pw) = getPlaylistTracks s"
  by (simp_all add: fun_eq_iff with_password_def getCategories_def getCategoryById_def
      getPlaylists_def getPlaylistById_def getTracks_def getTrackById_def
      getTracksByCategory_def getPlaylistTracks_def)

lemma ni_get_categories: "get_categories (with_password s u pw) = get_categories s"
  unfolding get_categories_def reads_with_password by (rule refl)

lemma ni_post_categories:
  "post_categories (with_password s u pw) b =
     (fst (post_categories s b), with_password (snd (post_categories s b)) u pw)"
  by (cases s)
     (auto simp: with_password_def post_categories_def createCategory_def Let_def
      split: sum.splits)

lemma ni_patch_categories:
  "patch_categories (with_password s u pw) i b =
     (fst (patch_categories s i b), with_password (snd (patch_categories s i b)) u pw)"
  by (cases s)
     (auto simp: with_password_def patch_categories_def updateCategory_def getCategoryById_def
      Let_def split: jsnum.splits sum.splits option.splits)

lemma ni_delete_categories:
  "delete_categories (with_password s u pw) i =
     (fst (delete_categories s i), with_password (snd (delete_categories s i)) u pw)"
  by (cases s)
     (auto simp: with_password_def delete_categories_def deleteCategory_def getCategoryById_def
      map_delete_def split: jsnum.splits option.splits)

lemma ni_get_playlists: "get_playlists (with_password s u pw) = get_playlists s"
  unfolding get_playlists_def reads_with_password by (rule refl)

lemma ni_get_playlist: "get_playlist (with_password s u pw) i = get_playlist s i"
  unfolding get_playlist_def reads_with_password by (rule refl)

lemma ni_post_playlists:
  "post_playlists (with_password s u pw) b =
     (fst (post_playlists s b), with_password (snd (post_playlists s b)) u pw)"
  by (cases s)
     (auto simp: with_password_def post_playlists_def createPlaylist_def Let_def
      split: sum.splits)

lemma ni_patch_playlists:
  "patch_playlists (with_password s u pw) i b =
     (fst (patch_playlists s i b), with_password (snd (patch_playlists s i b)) u pw)"
  by (cases s)
     (auto simp: with_password_def patch_playlists_def updatePlaylist_def getPlaylistById_def
      Let_def split: jsnum.splits sum.splits option.splits)

lemma ni_delete_playlists:
  "delete_playlists (with_password s u pw) i =
     (fst (delete_playlists s i), with_password (snd (delete_playlists s i)) u pw)"
  by (cases s)
     (auto simp: with_password_def delete_playlists_def deletePlaylist_def getPlaylistById_def
      map_delete_def Let_def split: jsnum.splits option.splits)

lemma ni_get_tracks: "get_tracks (with_password s u pw) c = get_tracks s c"
  unfolding get_tracks_def reads_with_password by (rule refl)

lemma ni_post_tracks_upload:
  "post_tracks_upload (with_password s u pw) now f b =
     (fst (post_tracks_upload s now f b),
      with_password (snd (post_tracks_upload s now f b)) u pw)"
  by (cases s)
     (auto simp: with_password_def post_tracks_upload_def createTrack_def Let_def
      split: sum.splits option.splits)

lemma ni_get_track_audio: "get_track_audio (with_password s u pw) i = get_track_audio s i"
  unfolding get_track_audio_def reads_with_password by (rule refl)

lemma ni_delete_tracks:
  "delete_tracks (with_password s u pw) i =
     (fst (delete_tracks s i), with_password (snd (delete_tracks s i)) u pw)"
  by (cases s)
     (auto simp: with_password_def delete_tracks_def deleteTrack_def getTrackById_def
      map_delete_def Let_def split: jsnum.splits option.splits)

lemma ni_post_playlist_tracks:
  "post_playlist_tracks (with_password s u pw) p t =
     (fst (post_playlist_tracks s p t), with_password (snd (post_playlist_tracks s p t)) u pw)"
  by (cases s)
     (auto simp: with_password_def post_playlist_tracks_def addTrackToPlaylist_def
      getPlaylistById_def getPlaylistTracks_def Let_def
      split: jsnum.splits sum.splits option.splits)

lemma ni_delete_playlist_tracks:
  "delete_playlist_tracks (with_password s u pw) p t =
     (fst (delete_playlist_tracks s p t),
      with_password (snd (delete_playlist_tracks s p t)) u pw)"
  by (cases s)
     (auto simp: with_password_def delete_playlist_tracks_def removeTrackFromPlaylist_def
      getPlaylistById_def map_delete_def split: jsnum.splits option.splits)

text \<open>
  C7. In two stores that differ only in the stored password of the session user, every
  request is answered with the same response, \<open>GET /users/me\<close> and \<open>PATCH /users/me\<close>
  among them, and leaves two stores that differ only in that password. The body of the
  two is made by \<open>userData\<close>, which leaves the password out.
\<close>

theorem password_never_in_response:
  "fst (handle request (with_password s req_user_id pw)) = fst (handle request s) \<and>
   snd (handle request (with_password s req_user_id pw)) =
     with_password (snd (handle request s)) req_user_id pw \<and>
   get_users_me (with_password s req_user_id pw) = get_users_me s \<and>
   fst (patch_users_me (with_password s req_user_id pw) req_body) =
     fst (patch_users_me s req_body) \<and>
   userData (user\<lparr>user_password := pw\<rparr>) = userData user"
proof -
  have "handle request (with_password s req_user_id pw) =
      (fst (handle request s), with_password (snd (handle request s)) req_user_id pw)"
  proof (cases request)
    case GET_users_me
    with ni_users_me [of s pw] show ?thesis by simp
  next
    case (PATCH_users_me b)
    with ni_users_me [of s pw b] show ?thesis by (simp add: prod_eq_iff)
  qed (simp_all add: ni_get_categories ni_post_categories ni_patch_categories
        ni_delete_categories ni_get_playlists ni_get_playlist ni_post_playlists
        ni_patch_playlists ni_delete_playlists ni_get_tracks ni_post_tracks_upload
        ni_get_track_audio ni_delete_tracks ni_post_playlist_tracks
        ni_delete_playlist_tracks)
  with ni_users_me [of s pw req_body] userData_password [where user = user and pw = pw]
  show ?thesis by simp
qed

theorem password_never_in_response_witness:
  "with_password storage req_user_id ''hunter2'' \<noteq> storage \<and>
   res_status (get_users_me storage) = 200 \<and>
   fst (handle GET_users_me (with_password storage req_user_id ''hunter2'')) =
     fst (handle GET_users_me storage)"
proof -
  have d: "with_password storage req_user_id ''hunter2'' \<noteq> storage"
    by (simp add: with_password_def storage_eval req_user_id_def)
  have ok: "res_status (get_users_me storage) = 200"
    by (simp add: get_users_me_def getUser_def storage_eval map_get_def req_user_id_def
        respond_def)
  from password_never_in_response [where request = GET_users_me and s = storage
      and pw = "''hunter2''"] d ok
  show ?thesis by blast
qed

subsection \<open>The position of a new link, in the running server\<close>

text \<open>
  C2. In a store of the running server, for a playlist \<open>P\<close> and a track \<open>T\<close> that exist and
  are not linked, the handler of \<open>POST /playlists/P/tracks\<close> with \<open>trackId = T\<close> answers 201
  with a new link that the store appends to its links; the position of that link is 0 when
  \<open>P\<close> has no links and one more than the largest position among the links of \<open>P\<close>
  otherwise. (The position is computed by the handler; \<open>addTrackToPlaylist\<close> stores the
  position it is given.)
\<close>

theorem add_assigns_next_position:
  assumes "served s"
    and "getPlaylistById s P = Some playlist" and "getTrackById s T = Some track"
    and "\<forall>pt\<in>set (map_values (playlistTracks s)). \<not> (pt_playlistId pt = P \<and> pt_trackId pt = T)"
  shows "\<exists>link.
           post_playlist_tracks s (Num P) (Num T) =
             (respond 201 (PlaylistTrackBody link),
              s\<lparr>playlistTracks := playlistTracks s @ [(pt_id link, link)],
                playlistTrackId := playlistTrackId s + 1\<rparr>) \<and>
           pt_id link = playlistTrackId s \<and> pt_playlistId link = P \<and> pt_trackId link = T \<and>
           pt_position link =
             (let positions = map pt_position
                    (filter (\<lambda>pt. pt_playlistId pt = P) (map_values (playlistTracks s)))
              in if positions = [] then 0 else Max (set positions) + 1)"
proof -
  from assms(1) have r: "reachable s" by (rule served_reachable)
  from assms(2) have "(P, playlist) \<in> set (playlists s)"
    unfolding getPlaylistById_def by (rule map_get_SomeD)
  then have "playlist \<in> set (map_values (playlists s))"
    by (force simp: map_values_def)
  with served_owned [OF assms(1)] have "playlist_userId playlist = req_user_id"
    by (simp add: owned_by_session_user_def)
  from add_assigns_next_position_owned [OF r assms(2) this assms(3,4)] show ?thesis .
qed

lemma two_tracks_store_eval:
  "two_tracks_store =
     storage\<lparr>tracks :=
         [(1, \<lparr>track_id = 1, track_name = ''memo'', track_userId = 1,
                track_categoryId = Some (Num 1), track_duration = Num 42,
                track_filePath = ''uploads/1-1.webm'', track_createdAt = Some 1000\<rparr>),
          (2, \<lparr>track_id = 2, track_name = ''memo'', track_userId = 1,
                track_categoryId = Some (Num 1), track_duration = Num 42,
                track_filePath = ''uploads/1-1.webm'', track_createdAt = Some 1001\<rparr>)],
       trackId := 3\<rparr>"
  by (simp add: two_tracks_store_def demo_form_def storage_eval post_tracks_upload_def
      createTrack_def req_user_id_def Let_def)

lemma served_two_tracks_store: "served two_tracks_store"
  unfolding two_tracks_store_def by (intro served_handle served_storage)

theorem add_assigns_next_position_witness:
  "served two_tracks_store \<and>
   getPlaylistTracks two_tracks_store 2 = Inr [] \<and>
   fst (post_playlist_tracks two_tracks_store (Num 2) (Num 1)) =
     respond 201 (PlaylistTrackBody
        \<lparr>pt_id = 1, pt_playlistId = 2, pt_trackId = 1, pt_position = 0\<rparr>) \<and>
   fst (post_playlist_tracks
          (snd (post_playlist_tracks two_tracks_store (Num 2) (Num 1))) (Num 2) (Num 2)) =
     respond 201 (PlaylistTrackBody
        \<lparr>pt_id = 2, pt_playlistId = 2, pt_trackId = 2, pt_position = 1\<rparr>)"
proof -
  let ?s0 = two_tracks_store
  let ?l1 = "\<lparr>pt_id = 1, pt_playlistId = 2, pt_trackId = 1, pt_position = 0\<rparr>"
  let ?l2 = "\<lparr>pt_id = 2, pt_playlistId = 2, pt_trackId = 2, pt_position = 1\<rparr>"
  let ?s1 = "snd (post_playlist_tracks ?s0 (Num 2) (Num 1))"
  let ?pl = "\<lparr>playlist_id = 2, playlist_name = ''Work Notes'',
      playlist_userId = 1, playlist_color = ''#F230AA'', playlist_icon = ''ri-album-fill''\<rparr>"
  have r0: "served ?s0" by (rule served_two_tracks_store)
  have e0: "getPlaylistTracks ?s0 2 = Inr []"
    by (simp add: two_tracks_store_eval storage_eval getPlaylistTracks_def map_values_def)
  have p0: "getPlaylistById ?s0 2 = Some ?pl"
    by (simp add: two_tracks_store_eval storage_eval getPlaylistById_def map_get_def)
  have t0: "getTrackById ?s0 1 = Some \<lparr>track_id = 1, track_name = ''memo'', track_userId = 1,
                track_categoryId = Some (Num 1), track_duration = Num 42,
                track_filePath = ''uploads/1-1.webm'', track_createdAt = Some 1000\<rparr>"
    by (simp add: two_tracks_store_eval storage_eval getTrackById_def map_get_def)
  have n0: "\<forall>pt\<in>set (map_values (playlistTracks ?s0)).
      \<not> (pt_playlistId pt = 2 \<and> pt_trackId pt = 1)"
    by (simp add: two_tracks_store_eval storage_eval map_values_def)
  from add_assigns_next_position [OF r0 p0 t0 n0] obtain link1 where
    a1: "post_playlist_tracks ?s0 (Num 2) (Num 1) =
             (respond 201 (PlaylistTrackBody link1),
              ?s0\<lparr>playlistTracks := playlistTracks ?s0 @ [(pt_id link1, link1)],
                playlistTrackId := playlistTrackId ?s0 + 1\<rparr>)"
    and f1: "pt_id link1 = playlistTrackId ?s0" "pt_playlistId link1 = 2" "pt_trackId link1 = 1"
      "pt_position link1 =
             (let positions = map pt_position
                    (filter (\<lambda>pt. pt_playlistId pt = 2) (map_values (playlistTracks ?s0)))
              in if positions = [] then 0 else Max (set positions) + 1)"
    by blast
  from f1 have l1: "link1 = ?l1"
    by (simp add: two_tracks_store_eval storage_eval map_values_def)
  from a1 l1 have b1: "fst (post_playlist_tracks ?s0 (Num 2) (Num 1)) =
      respond 201 (PlaylistTrackBody ?l1)"
    by simp
  from a1 l1 have s1: "?s1 = ?s0\<lparr>playlistTracks := [(1, ?l1)], playlistTrackId := 2\<rparr>"
    by (simp add: two_tracks_store_eval storage_eval)
  have "served (snd (handle (POST_playlist_tracks (Num 2) (Num 1)) ?s0))"
    by (intro served_handle r0)
  then have r1: "served ?s1" by simp
  have p1: "getPlaylistById ?s1 2 = Some ?pl"
    unfolding s1
    by (simp add: two_tracks_store_eval storage_eval getPlaylistById_def map_get_def)
  have t1: "getTrackById ?s1 2 = Some \<lparr>track_id = 2, track_name = ''memo'', track_userId = 1,
                track_categoryId = Some (Num 1), track_duration = Num 42,
                track_filePath = ''uploads/1-1.webm'', track_createdAt = Some 1001\<rparr>"
    unfolding s1
    by (simp add: two_tracks_store_eval storage_eval getTrackById_def map_get_def)
  have n1: "\<forall>pt\<in>set (map_values (playlistTracks ?s1)).
      \<not> (pt_playlistId pt = 2 \<and> pt_trackId pt = 2)"
    unfolding s1 by (simp add: map_values_def)
  from add_assigns_next_position [OF r1 p1 t1 n1] obtain link2 where
    a2: "post_playlist_tracks ?s1 (Num 2) (Num 2) =
             (respond 201 (PlaylistTrackBody link2),
              ?s1\<lparr>playlistTracks := playlistTracks ?s1 @ [(pt_id link2, link2)],
                playlistTrackId := playlistTrackId ?s1 + 1\<rparr>)"
    and f2: "pt_id link2 = playlistTrackId ?s1" "pt_playlistId link2 = 2" "pt_trackId link2 = 2"
      "pt_position link2 =
             (let positions = map pt_position
                    (filter (\<lambda>pt. pt_playlistId pt = 2) (map_values (playlistTracks ?s1)))
              in if positions = [] then 0 else Max (set positions) + 1)"
    by blast
  from f2 have "link2 = ?l2"
    unfolding s1 by (simp add: map_values_def)
  with a2 have b2: "fst (post_playlist_tracks ?s1 (Num 2) (Num 2)) =
      respond 201 (PlaylistTrackBody ?l2)"
    by simp
  from r0 e0 b1 b2 show ?thesis by (intro conjI)
qed

subsection \<open>The one user of the running server\<close>

text \<open>
  The running server has the one default user: no route creates a user, so there its
  username has nothing to clash with.
\<close>

lemma users_handle:
  "map_keys (users s) = [req_user_id] \<Longrightarrow> map_keys (users (snd (handle request s))) = [req_user_id]"
proof (cases request)
  case (PATCH_users_me b)
  assume k: "map_keys (users s) = [req_user_id]"
  then have "map_keys (map_set (users s) req_user_id u) = [req_user_id]" for u
    by (simp add: map_keys_map_set_old)
  with k PATCH_users_me show ?thesis
    by (auto simp: patch_users_me_def updateSchema_parse_def updateUser_def Let_def
        split: sum.splits option.splits)
qed (auto simp: post_categories_def patch_categories_def delete_categories_def
      post_playlists_def patch_playlists_def delete_playlists_def post_tracks_upload_def
      delete_tracks_def post_playlist_tracks_def delete_playlist_tracks_def
      createCategory_def updateCategory_def deleteCategory_def createPlaylist_def
      updatePlaylist_def deletePlaylist_def createTrack_def deleteTrack_def
      addTrackToPlaylist_def removeTrackFromPlaylist_def map_delete_def Let_def
      split: jsnum.splits sum.splits option.splits)

lemma served_one_user: "served s \<Longrightarrow> map_keys (users s) = [req_user_id]"
proof (induction rule: served.induct)
  case served_storage
  show ?case by (simp add: storage_eval map_keys_def req_user_id_def)
next
  case (served_handle s request)
  from served_handle.IH show ?case by (rule users_handle)
qed

lemma served_usernames_unique: "served s \<Longrightarrow> usernames_unique s"
proof -
  assume "served s"
  then have "length (map_keys (users s)) = 1" by (simp add: served_one_user)
  then have "length (map user_username (map_values (users s))) = 1"
    by (simp add: map_keys_def map_values_def)
  then show ?thesis
    unfolding usernames_unique_def
    by (cases "map user_username (map_values (users s))") simp_all
qed

end
